theory Spec2Isabelle
  imports Complex_Main
begin

section \<open>Numbers, constants and the random source\<close>

text \<open>
  The sketch computes with JavaScript numbers. Its arithmetic is modelled on mathematical
  reals: the rounding of double-precision operations and NaN are outside the model. The
  sample buffer is a \<open>Float32Array\<close>; the rounding to single precision of every value
  written to it is modelled by \<open>fround\<close> below. Quantum numbers and counts come from
  \<open>parseInt\<close> and are integers.

  The file \<open>sketch.js\<close> holds two copies of the sketch, an older one followed by the
  current one (from line 1693 on). The definitions below follow the current copy, with
  its constants.
\<close>

definition a0 :: real where "a0 = 40"
definition CHUNK_SAMPLES :: nat where "CHUNK_SAMPLES = 1500"
definition ATTEMPTS_PER_CHUNK :: nat where "ATTEMPTS_PER_CHUNK = 25000"
definition NUCLEUS_RADIUS :: real where "NUCLEUS_RADIUS = 18"
definition ELECTRON_MIN_GAP :: real where "ELECTRON_MIN_GAP = 6"
definition ELECTRON_DISTANCE_MULTIPLIER :: real where "ELECTRON_DISTANCE_MULTIPLIER = 1.6"
definition MAX_ELECTRONS :: int where "MAX_ELECTRONS = 30000"
definition GLOBAL_RADIAL_PUSH :: real where "GLOBAL_RADIAL_PUSH = 1.15"
definition EQ_RADIAL_PUSH :: real where "EQ_RADIAL_PUSH = 1.35"
definition NEAR_NUCLEAR_PUSH_MULT :: real where "NEAR_NUCLEAR_PUSH_MULT = 2"
definition NEAR_THRESHOLD_MULT :: real where "NEAR_THRESHOLD_MULT = 1.5"
definition NEAR_THRESHOLD_ABS :: real where "NEAR_THRESHOLD_ABS = 80"
definition NEAR_THRESHOLD_EQ_ABS :: real where "NEAR_THRESHOLD_EQ_ABS = 120"
definition TWO_PI :: real where "TWO_PI = 2 * pi"

definition DZ_LOBE_SCALE :: real where "DZ_LOBE_SCALE = 0.78"
definition LOBE_Z_SHRINK :: real where "LOBE_Z_SHRINK = 1"
definition LOBE_AXIAL_EXTEND :: real where "LOBE_AXIAL_EXTEND = 1.42"
definition LOBE_Z_OFFSET_MULT :: real where "LOBE_Z_OFFSET_MULT = 0.18"
definition P_PX_AXIAL_BOOST :: real where "P_PX_AXIAL_BOOST = 1.15"
definition P_PX_RADIAL_BOOST :: real where "P_PX_RADIAL_BOOST = 1.10"
definition LOBE_RADIAL_PERCENTILE_MULT :: real where "LOBE_RADIAL_PERCENTILE_MULT = 0.54"
definition LOBE_RADIAL_EXTRA_GROW :: real where "LOBE_RADIAL_EXTRA_GROW = 0.84"
definition RING_DEFAULT_INNER_DIAM :: real where "RING_DEFAULT_INNER_DIAM = 120"
definition RING_DEFAULT_OUTER_DIAM :: real where "RING_DEFAULT_OUTER_DIAM = 180"
definition RING_COLOR :: "nat list" where "RING_COLOR = [160, 220, 255]"
definition RING_ALPHA :: nat where "RING_ALPHA = 160"
definition DZ2_RING_SHRINK_FACTOR :: real where "DZ2_RING_SHRINK_FACTOR = 0.92"
definition DZ2_AXIAL_OFFSET_SCALE :: real where "DZ2_AXIAL_OFFSET_SCALE = 0.75"
definition OVERLAY_PERCENTILE :: real where "OVERLAY_PERCENTILE = 0.95"
definition OVERLAY_RING_INNER_P :: real where "OVERLAY_RING_INNER_P = 0.10"
definition OVERLAY_RING_OUTER_P :: real where "OVERLAY_RING_OUTER_P = 0.90"

text \<open>\<open>const minAllowed = NUCLEUS_RADIUS + ELECTRON_MIN_GAP\<close>, also the sampler's \<open>minR\<close>.\<close>

definition minAllowed :: real where "minAllowed = NUCLEUS_RADIUS + ELECTRON_MIN_GAP"

text \<open>
  A sample buffer \<open>[x, y, z, x, y, z, ...]\<close> is a list of points; point \<open>i\<close> is the
  triple at \<open>positions[3 i], positions[3 i + 1], positions[3 i + 2]\<close>.
\<close>

type_synonym vec3 = "real \<times> real \<times> real"

definition dist3 :: "vec3 \<Rightarrow> real" where
  "dist3 p = (case p of (x, y, z) \<Rightarrow> sqrt (x * x + y * y + z * z))"





section \<open>Single-precision storage\<close>

text \<open>
  A value written to a slot of a \<open>Float32Array\<close> is rounded to the nearest
  single-precision number, ties to even, as by \<open>Math.fround\<close>: with \<open>e\<close> the binary
  exponent of the value, at least -126 (below it the numbers are subnormal), the
  result is the multiple of \<open>2^(e - 23)\<close> nearest to the value. Values of magnitude
  \<open>2^128\<close> and more, which the store turns into \<open>Infinity\<close>, are outside the model.
\<close>

definition roundTiesToEven :: "real \<Rightarrow> int" where
  "roundTiesToEven t =
     (let f = \<lfloor>t\<rfloor>;
          d = t - real_of_int f
      in if d < 1 / 2 then f
         else if 1 / 2 < d then f + 1
         else if even f then f else f + 1)"

definition f32Exponent :: "real \<Rightarrow> int" where
  "f32Exponent v = max (- 126) \<lfloor>log 2 \<bar>v\<bar>\<rfloor>"

definition fround :: "real \<Rightarrow> real" where
  "fround v =
     (if v = 0 then 0
      else let q = 2 powi (f32Exponent v - 23)
           in real_of_int (roundTiesToEven (v / q)) * q)"

definition froundVec :: "vec3 \<Rightarrow> vec3" where
  "froundVec p = (case p of (x, y, z) \<Rightarrow> (fround x, fround y, fround z))"

text \<open>
  The content of a \<open>Float32Array\<close> whose slots were assigned the coordinates of the
  points \<open>ps\<close>. Values read back from the array are single-precision numbers, which
  \<open>fround\<close> leaves as they are.
\<close>

definition float32Array :: "vec3 list \<Rightarrow> vec3 list" where
  "float32Array ps = map froundVec ps"

section \<open>Wavefunction helpers\<close>

text \<open>\<open>for (let i = 1; i <= m; i++) { pmm *= -fact * somx2; fact += 2.0; }\<close>\<close>

function pmm_loop :: "int \<Rightarrow> int \<Rightarrow> real \<Rightarrow> real \<Rightarrow> real \<Rightarrow> real" where
  "pmm_loop i m somx2 fct pmm =
     (if i \<le> m then pmm_loop (i + 1) m somx2 (fct + 2) (pmm * (- fct * somx2)) else pmm)"
  by pat_completeness auto
termination
  by (relation "measure (\<lambda>(i, m, somx2, fct, pmm). nat (m + 1 - i))") auto

text \<open>The upward recurrence \<open>for (let ll = m + 2; ll <= l; ll++)\<close>.\<close>

function plm_loop :: "int \<Rightarrow> int \<Rightarrow> int \<Rightarrow> real \<Rightarrow> real \<Rightarrow> real \<Rightarrow> real" where
  "plm_loop ll l m x plmPrev plm =
     (if ll \<le> l
      then plm_loop (ll + 1) l m x plm
             ((real_of_int (2 * ll - 1) * x * plm - real_of_int (ll + m - 1) * plmPrev)
                / real_of_int (ll - m))
      else plm)"
  by pat_completeness auto
termination
  by (relation "measure (\<lambda>(ll, l, m, x, plmPrev, plm). nat (l + 1 - ll))") auto

definition associatedLegendre :: "int \<Rightarrow> int \<Rightarrow> real \<Rightarrow> real" where
  "associatedLegendre l m x =
     (if m > l then 0
      else
        let pmm = (if m > 0 then pmm_loop 1 m (sqrt (max 0 (1 - x * x))) 1 1 else 1)
        in if l = m then pmm
           else
             let pmmp1 = x * real_of_int (2 * m + 1) * pmm
             in if l = m + 1 then pmmp1
                else plm_loop (m + 2) l m x pmm pmmp1)"

definition angularProb :: "real \<Rightarrow> real \<Rightarrow> int \<Rightarrow> int \<Rightarrow> real" where
  "angularProb theta phi l m =
     (let x = cos theta;
          mm = \<bar>m\<bar>;
          Plm = associatedLegendre l mm x;
          ang = (if m > 0 then Plm * cos (real_of_int m * phi)
                 else if m < 0 then Plm * sin (real_of_int mm * phi)
                 else Plm)
      in ang * ang + 1 / 10 ^ 30)"

text \<open>\<open>if (!l || l <= 0) return 1.0; return Math.max(0.6, 1.0 - 0.06 * l);\<close>\<close>

definition radialLScale :: "int \<Rightarrow> real" where
  "radialLScale l = (if l = 0 \<or> l \<le> 0 then 1 else max 0.6 (1 - 0.06 * real_of_int l))"

section \<open>The radial draw\<close>

text \<open>
  The random source is the stream \<open>rnd\<close> of the values that successive calls of p5's
  \<open>random()\<close> return, read at a cursor. \<open>random(lo, hi)\<close> is p5's
  \<open>lo + random() * (hi - lo)\<close>.
\<close>

type_synonym rng = "nat \<Rightarrow> real"

definition random2 :: "rng \<Rightarrow> nat \<Rightarrow> real \<Rightarrow> real \<Rightarrow> real" where
  "random2 rnd c lo hi = lo + rnd c * (hi - lo)"

text \<open>
  \<open>for (let i = 0; i < k; i++) { let u = random(); if (u <= 1e-12) u = 1e-12;
  sumExp += -Math.log(u); }\<close>, returning the sum and the advanced cursor.
\<close>

fun sumExp_loop :: "rng \<Rightarrow> nat \<Rightarrow> nat \<Rightarrow> real \<Rightarrow> real \<times> nat" where
  "sumExp_loop rnd 0 c acc = (acc, c)"
| "sumExp_loop rnd (Suc k) c acc =
     (let u = rnd c;
          u' = (if u \<le> 1 / 10 ^ 12 then 1 / 10 ^ 12 else u)
      in sumExp_loop rnd k (c + 1) (acc + - ln u'))"

definition shapeK :: "int \<Rightarrow> nat" where
  "shapeK l = nat (max 1 (2 * l + 3))"

definition thetaScale :: "int \<Rightarrow> real" where
  "thetaScale n = (real_of_int n * a0) / 2"

definition radialScale :: "int \<Rightarrow> real" where
  "radialScale l = radialLScale l * ELECTRON_DISTANCE_MULTIPLIER"

text \<open>The radius before any rejection: \<open>let r = thetaScale * sumExp * radialScale\<close>.\<close>

definition radialDraw :: "rng \<Rightarrow> nat \<Rightarrow> int \<Rightarrow> int \<Rightarrow> real" where
  "radialDraw rnd c n l = thetaScale n * fst (sumExp_loop rnd (shapeK l) c 0) * radialScale l"

text \<open>The mean of the radius over a batch of draws, each starting at its own cursor.\<close>

definition meanRadius :: "rng \<Rightarrow> nat list \<Rightarrow> int \<Rightarrow> int \<Rightarrow> real" where
  "meanRadius rnd cs n l = (\<Sum>c\<leftarrow>cs. radialDraw rnd c n l) / real (length cs)"

section \<open>Utility functions\<close>

text \<open>
  \<open>percentile(arr, p)\<close>: the element at index \<open>min(length - 1, floor(p * length))\<close> of the
  sorted copy, and 0 for an empty array. Every call site passes a constant \<open>p\<close> between
  0 and 1.
\<close>

definition percentile :: "real list \<Rightarrow> real \<Rightarrow> real" where
  "percentile arr p =
     (if arr = [] then 0
      else
        let copy = sort arr;
            idx = min (length copy - 1) (nat \<lfloor>p * real (length copy)\<rfloor>)
        in copy ! idx)"

section \<open>Outward-push normalizer\<close>

text \<open>The two arrays of axial magnitudes: \<open>z\<close> for \<open>z >= 0\<close>, \<open>-z\<close> otherwise.\<close>

definition posAxialOf :: "vec3 list \<Rightarrow> real list" where
  "posAxialOf pts = map (\<lambda>(x, y, z). z) (filter (\<lambda>(x, y, z). z \<ge> 0) pts)"

definition negAxialOf :: "vec3 list \<Rightarrow> real list" where
  "negAxialOf pts = map (\<lambda>(x, y, z). - z) (filter (\<lambda>(x, y, z). \<not> z \<ge> 0) pts)"

definition pushEqThreshold :: "vec3 list \<Rightarrow> real" where
  "pushEqThreshold pts =
     (let posAxial = posAxialOf pts;
          negAxial = negAxialOf pts;
          t80posRaw = (if posAxial \<noteq> [] then percentile posAxial 0.80 else 0);
          t80negRaw = (if negAxial \<noteq> [] then percentile negAxial 0.80 else 0)
      in max (0.2 * max t80posRaw t80negRaw) 1)"

definition EPS :: real where "EPS = 1 / 10 ^ 6"

text \<open>
  The arguments of \<open>pushElectronsOutward\<close>, in the order of its parameter list. A
  threshold parameter that is not a finite number (the default \<open>null\<close>) is \<open>None\<close>.
\<close>

record pushArgs =
  globalFactor :: real
  equatorialFactor :: real
  applyNearMultiplier :: bool
  nearMultiplier :: real
  nearThresholdParam :: "real option"
  nearEquatorialThresholdParam :: "real option"

definition nearThresholdOf :: "pushArgs \<Rightarrow> real" where
  "nearThresholdOf a =
     (case nearThresholdParam a of Some v \<Rightarrow> v | None \<Rightarrow> minAllowed * NEAR_THRESHOLD_MULT)"

definition nearEqThresholdOf :: "pushArgs \<Rightarrow> real" where
  "nearEqThresholdOf a =
     (case nearEquatorialThresholdParam a of Some v \<Rightarrow> v | None \<Rightarrow> nearThresholdOf a)"

text \<open>
  The factor and the minimum target distance chosen for one point, from whether it is
  equatorial and its distance \<open>r3D\<close> from the origin.
\<close>

definition pushFactor :: "pushArgs \<Rightarrow> bool \<Rightarrow> real \<Rightarrow> real \<times> real" where
  "pushFactor a isEquatorial r3D =
     (let factor = (if isEquatorial then equatorialFactor a else globalFactor a);
          targetMinDistance = minAllowed
      in if applyNearMultiplier a then
           (if isEquatorial \<and> r3D \<le> nearEqThresholdOf a
            then (factor * nearMultiplier a, max minAllowed (nearEqThresholdOf a))
            else if \<not> isEquatorial \<and> r3D \<le> nearThresholdOf a
            then (factor * nearMultiplier a, max minAllowed (nearThresholdOf a))
            else (factor, targetMinDistance))
         else (factor, targetMinDistance))"

text \<open>
  One iteration of the second loop of \<open>pushElectronsOutward\<close>: the point whose
  coordinates the iteration assigns to \<open>positions[idx], positions[idx + 1],
  positions[idx + 2]\<close>, and the cursor of the random source after it. The typed buffer
  then holds the single-precision rounding of each coordinate (\<open>float32Array\<close>).
\<close>

definition pushPoint :: "rng \<Rightarrow> pushArgs \<Rightarrow> real \<Rightarrow> nat \<Rightarrow> vec3 \<Rightarrow> vec3 \<times> nat" where
  "pushPoint rnd a eqThreshold c p =
     (case p of (x, y, z) \<Rightarrow>
        let rXY = sqrt (x * x + y * y);
            r3D = sqrt (x * x + y * y + z * z);
            isEquatorial = (\<bar>z\<bar> \<le> eqThreshold);
            (factor, targetMinDistance) = pushFactor a isEquatorial r3D
        in if applyNearMultiplier a then
             (if r3D \<le> EPS then
                let ang = random2 rnd c 0 TWO_PI;
                    newR = max targetMinDistance (0.5 * factor)
                in ((cos ang * newR, sin ang * newR, 0), c + 1)
              else
                let newR3D = max targetMinDistance (r3D * factor);
                    s = newR3D / r3D
                in ((x * s, y * s, z * s), c))
           else
             (if rXY \<le> EPS then
                (if r3D \<le> EPS then
                   let u = random2 rnd c (- 1) 1;
                       theta = arccos u;
                       phi = random2 rnd (c + 1) 0 TWO_PI;
                       sr = sin theta
                   in ((minAllowed * sr * cos phi, minAllowed * sr * sin phi,
                        minAllowed * cos theta), c + 2)
                 else
                   let newR3D = max minAllowed (r3D * factor);
                       s = newR3D / r3D
                   in ((x * s, y * s, z * s), c))
              else
                let newR3D = max minAllowed (r3D * factor);
                    s = newR3D / r3D
                in ((x * s, y * s, z * s), c)))"

text \<open>The loop \<open>for (let i = 0; i < sampleCount; i++)\<close> over the points, in order.\<close>

fun pushLoop :: "rng \<Rightarrow> pushArgs \<Rightarrow> real \<Rightarrow> nat \<Rightarrow> vec3 list \<Rightarrow> vec3 list \<times> nat" where
  "pushLoop rnd a eqThreshold c [] = ([], c)"
| "pushLoop rnd a eqThreshold c (p # ps) =
     (let (p', c') = pushPoint rnd a eqThreshold c p;
          (ps', c'') = pushLoop rnd a eqThreshold c' ps
      in (p' # ps', c''))"

text \<open>
  The normalizer on the first \<open>sampleCount\<close> points of a buffer; the rest of the buffer
  is not touched. Reads past the end of the typed array are not modelled: the sampler
  keeps \<open>sampleCount\<close> within the capacity.
\<close>

definition pushBuffer :: "rng \<Rightarrow> pushArgs \<Rightarrow> nat \<Rightarrow> nat \<Rightarrow> vec3 list \<Rightarrow> vec3 list \<times> nat" where
  "pushBuffer rnd a c n buf =
     (let pts = take n buf;
          (pts', c') = pushLoop rnd a (pushEqThreshold pts) c pts
      in (pts' @ drop n buf, c'))"

section \<open>Shape fitting\<close>

text \<open>
  \<open>computeOverlay\<close> copies every \<open>step\<close>-th point of the buffer, \<open>step = max(1,
  floor(n / 3000))\<close>, and fits the copy in a deferred callback that branches on the
  quantum numbers \<open>l\<close> and \<open>m\<close>.
\<close>

definition overlaySampled :: "vec3 list \<Rightarrow> nat \<Rightarrow> vec3 list" where
  "overlaySampled buf n =
     (let step = max 1 (n div 3000)
      in map (\<lambda>j. buf ! (j * step)) [0..<(n + step - 1) div step])"

record ring =
  innerRadius :: real
  outerRadius :: real
  majorRadius :: real
  tubeRadius :: real
  color :: "nat list"
  alpha :: nat

record dz2Data =
  t80pos :: real
  t80neg :: real
  lobeRadial :: real
  axialOffsetPos :: real
  axialOffsetNeg :: real
  ring :: ring

record lobe =
  axisUnit :: vec3
  t95 :: real
  r95 :: real

record dLobe =
  dAxisUnit :: vec3
  axial :: real
  radialMajor :: real
  radialMinor :: real
  radialAngle :: real
  nearSideCompression :: real

text \<open>
  The overlay descriptors by their \<open>type\<close> tag: \<open>'s'\<close>, \<open>'p'\<close>, \<open>'dz2'\<close>, \<open>'d'\<close>, and
  \<open>null\<close> for the quantum numbers that no branch fits.
\<close>

datatype overlay =
    OverlayNone
  | OverlayS real
  | OverlayP "lobe list"
  | OverlayDz2 dz2Data
  | OverlayD "dLobe list"

subsection \<open>The branch \<open>l = 2, m = 0\<close>\<close>

definition radialXYEquatorialOf :: "vec3 list \<Rightarrow> real \<Rightarrow> real list" where
  "radialXYEquatorialOf sampled eqThreshold =
     map (\<lambda>(x, y, z). sqrt (x * x + y * y)) (filter (\<lambda>(x, y, z). \<bar>z\<bar> \<le> eqThreshold) sampled)"

definition ringRadii :: "real list \<Rightarrow> real \<times> real" where
  "ringRadii radialXYEquatorial =
     (let (ringInnerRadius, ringOuterRadius) =
            (if length radialXYEquatorial \<ge> 8 then
               let inner = max (NUCLEUS_RADIUS + ELECTRON_MIN_GAP)
                             (percentile radialXYEquatorial OVERLAY_RING_INNER_P)
               in (inner, max (inner + 0.001) (percentile radialXYEquatorial OVERLAY_RING_OUTER_P))
             else (RING_DEFAULT_INNER_DIAM * 0.5, RING_DEFAULT_OUTER_DIAM * 0.5))
      in (ringInnerRadius * DZ2_RING_SHRINK_FACTOR, ringOuterRadius * DZ2_RING_SHRINK_FACTOR))"

text \<open>
  The raw 95th percentiles of the axial magnitudes above and below the plane, and the
  equatorial band \<open>Math.max(0.2 * Math.max(t95posRaw, t95negRaw), 1.0)\<close> drawn from them.
\<close>

definition t95posRawOf :: "vec3 list \<Rightarrow> real" where
  "t95posRawOf sampled =
     (if posAxialOf sampled \<noteq> [] then percentile (posAxialOf sampled) OVERLAY_PERCENTILE else 0)"

definition t95negRawOf :: "vec3 list \<Rightarrow> real" where
  "t95negRawOf sampled =
     (if negAxialOf sampled \<noteq> [] then percentile (negAxialOf sampled) OVERLAY_PERCENTILE else 0)"

definition dz2EqThreshold :: "vec3 list \<Rightarrow> real" where
  "dz2EqThreshold sampled = max (0.2 * max (t95posRawOf sampled) (t95negRawOf sampled)) 1"

definition overlayDz2 :: "vec3 list \<Rightarrow> overlay" where
  "overlayDz2 sampled =
     (let radialXYAll = map (\<lambda>(x, y, z). sqrt (x * x + y * y)) sampled;
          t95posRaw = t95posRawOf sampled;
          t95negRaw = t95negRawOf sampled;
          t95pos = max 1 (t95posRaw * DZ_LOBE_SCALE * LOBE_Z_SHRINK * LOBE_AXIAL_EXTEND);
          t95neg = max 1 (t95negRaw * DZ_LOBE_SCALE * LOBE_Z_SHRINK * LOBE_AXIAL_EXTEND);
          lobeRadial95 = (if radialXYAll \<noteq> []
                          then percentile radialXYAll OVERLAY_PERCENTILE * LOBE_RADIAL_PERCENTILE_MULT
                          else 2);
          lobeRadial = max 0.9 (lobeRadial95 * LOBE_RADIAL_EXTRA_GROW);
          axialOffsetPos = t95pos * LOBE_Z_OFFSET_MULT * DZ2_AXIAL_OFFSET_SCALE;
          axialOffsetNeg = t95neg * LOBE_Z_OFFSET_MULT * DZ2_AXIAL_OFFSET_SCALE;
          eqThreshold = dz2EqThreshold sampled;
          (ringInnerRadius, ringOuterRadius) =
             ringRadii (radialXYEquatorialOf sampled eqThreshold);
          tubeRadius = max 1 ((ringOuterRadius - ringInnerRadius) * 0.5);
          majorRadius = (ringInnerRadius + ringOuterRadius) * 0.5
      in OverlayDz2
           \<lparr>t80pos = t95pos, t80neg = t95neg, lobeRadial = lobeRadial,
            axialOffsetPos = axialOffsetPos, axialOffsetNeg = axialOffsetNeg,
            ring = \<lparr>innerRadius = ringInnerRadius, outerRadius = ringOuterRadius,
                    majorRadius = majorRadius, tubeRadius = tubeRadius,
                    color = RING_COLOR, alpha = RING_ALPHA\<rparr>\<rparr>)"

text \<open>The ring of a descriptor of the axial-lobes-with-ring kind.\<close>

fun ringOf :: "overlay \<Rightarrow> ring option" where
  "ringOf (OverlayDz2 d) = Some (ring d)"
| "ringOf _ = None"

subsection \<open>k-means clustering\<close>

text \<open>
  The initial centroid index: \<open>do { idx = Math.floor(random() * n); tries++; }
  while (used.has(idx) && tries < 10)\<close>.
\<close>

function pickCentroidIdx :: "rng \<Rightarrow> nat \<Rightarrow> nat list \<Rightarrow> nat \<Rightarrow> nat \<Rightarrow> nat \<times> nat" where
  "pickCentroidIdx rnd n used tries c =
     (let idx = nat \<lfloor>rnd c * real n\<rfloor>;
          tries' = tries + 1
      in if idx \<in> set used \<and> tries' < 10
         then pickCentroidIdx rnd n used tries' (c + 1)
         else (idx, c + 1))"
  by pat_completeness auto
termination
  by (relation "measure (\<lambda>(rnd, n, used, tries, c). 10 - tries)") auto

fun initCentroids :: "rng \<Rightarrow> vec3 list \<Rightarrow> nat \<Rightarrow> nat \<Rightarrow> nat list \<Rightarrow> nat \<Rightarrow> vec3 list \<times> nat" where
  "initCentroids rnd points n 0 used c = ([], c)"
| "initCentroids rnd points n (Suc k) used c =
     (let (idx, c') = pickCentroidIdx rnd n used 0 c;
          (rest, c'') = initCentroids rnd points n k (idx # used) c'
      in (points ! idx # rest, c''))"

definition sqDist :: "vec3 \<Rightarrow> vec3 \<Rightarrow> real" where
  "sqDist p q = (case p of (px, py, pz) \<Rightarrow> case q of (qx, qy, qz) \<Rightarrow>
     let dx = px - qx; dy = py - qy; dz = pz - qz in dx * dx + dy * dy + dz * dz)"

text \<open>
  The nearest centroid of a point: the first index with the strictly smallest squared
  distance. \<open>bestD\<close> starts at \<open>Infinity\<close>, which is \<open>None\<close> here.
\<close>

fun nearestLoop :: "vec3 \<Rightarrow> vec3 list \<Rightarrow> nat \<Rightarrow> nat \<Rightarrow> real option \<Rightarrow> nat" where
  "nearestLoop p [] c best bestD = best"
| "nearestLoop p (ce # ces) c best bestD =
     (let d = sqDist p ce
      in if (case bestD of None \<Rightarrow> True | Some b \<Rightarrow> d < b)
         then nearestLoop p ces (c + 1) c (Some d)
         else nearestLoop p ces (c + 1) best bestD)"

definition vecSum :: "vec3 list \<Rightarrow> vec3" where
  "vecSum ps = foldl (\<lambda>(sx, sy, sz) (x, y, z). (sx + x, sy + y, sz + z)) (0, 0, 0) ps"

text \<open>
  The new centroids, cluster by cluster: the mean of the members, or a point at a random
  index for a cluster without members.
\<close>

fun updateCentroids :: "rng \<Rightarrow> vec3 list \<Rightarrow> nat \<Rightarrow> nat list \<Rightarrow> nat \<Rightarrow> nat \<Rightarrow> nat \<Rightarrow> vec3 list \<times> nat" where
  "updateCentroids rnd points n assignments ci 0 c = ([], c)"
| "updateCentroids rnd points n assignments ci (Suc k) c =
     (let members = filter (\<lambda>i. assignments ! i = ci) [0..<n];
          cnt = length members;
          (centroid, c') =
            (if cnt > 0
             then (case vecSum (map (\<lambda>i. points ! i) members) of
                     (sx, sy, sz) \<Rightarrow> ((sx / real cnt, sy / real cnt, sz / real cnt), c))
             else (points ! nat \<lfloor>rnd c * real n\<rfloor>, c + 1));
          (rest, c'') = updateCentroids rnd points n assignments (ci + 1) k c'
      in (centroid # rest, c''))"

text \<open>The iterations \<open>for (let iter = 0; iter < maxIter; iter++)\<close>, left when no point moved.\<close>

fun kmeansIter :: "rng \<Rightarrow> vec3 list \<Rightarrow> nat \<Rightarrow> nat \<Rightarrow> nat \<Rightarrow> vec3 list \<Rightarrow> nat list \<Rightarrow> nat \<Rightarrow> nat list \<times> nat" where
  "kmeansIter rnd points n k 0 centroids assignments c = (assignments, c)"
| "kmeansIter rnd points n k (Suc iters) centroids assignments c =
     (let assignments' = map (\<lambda>i. nearestLoop (points ! i) centroids 0 0 None) [0..<n];
          moved = (assignments' \<noteq> assignments);
          (centroids', c') = updateCentroids rnd points n assignments' 0 k c
      in if \<not> moved then (assignments', c')
         else kmeansIter rnd points n k iters centroids' assignments' c')"

definition kmeans :: "rng \<Rightarrow> vec3 list \<Rightarrow> nat \<Rightarrow> nat \<Rightarrow> nat \<Rightarrow> nat \<Rightarrow> nat list list \<times> nat" where
  "kmeans rnd points count k maxIter c =
     (if count \<le> 0 then ([], c)
      else
        let n = count;
            (centroids, c1) = initCentroids rnd points n k [] c;
            (assignments, c2) = kmeansIter rnd points n k maxIter centroids (replicate n 0) c1
        in (map (\<lambda>ci. filter (\<lambda>i. assignments ! i = ci) [0..<n]) [0..<k], c2))"

subsection \<open>The branch \<open>l = 1\<close>\<close>

text \<open>The lobe of one cluster: axis through the centroid, 95th percentiles along and across it.\<close>

definition clusterLobe :: "vec3 list \<Rightarrow> nat list \<Rightarrow> lobe" where
  "clusterLobe sampled idxs =
     (case vecSum (map (\<lambda>i. sampled ! i) idxs) of (sx0, sy0, sz0) \<Rightarrow>
        let sx = sx0 / real (length idxs);
            sy = sy0 / real (length idxs);
            sz = sz0 / real (length idxs);
            axisLen0 = sqrt (sx * sx + sy * sy + sz * sz);
            axisLen = (if axisLen0 = 0 then 1 else axisLen0);
            ax = sx / axisLen; ay = sy / axisLen; az = sz / axisLen;
            axialVals = map (\<lambda>i. case sampled ! i of (x, y, z) \<Rightarrow>
                               \<bar>x * ax + y * ay + z * az\<bar>) idxs;
            radialVals = map (\<lambda>i. case sampled ! i of (x, y, z) \<Rightarrow>
                               let t = x * ax + y * ay + z * az
                               in sqrt (max 0 (x * x + y * y + z * z - t * t))) idxs
        in \<lparr>axisUnit = (ax, ay, az),
            t95 = max 0.01 (percentile axialVals OVERLAY_PERCENTILE),
            r95 = max 0.01 (percentile radialVals OVERLAY_PERCENTILE)\<rparr>)"

text \<open>The loop over the clusters: a cluster with fewer than 6 members is skipped.\<close>

definition lobesOfClusters :: "vec3 list \<Rightarrow> nat list list \<Rightarrow> lobe list" where
  "lobesOfClusters sampled clusters =
     map (clusterLobe sampled) (filter (\<lambda>idxs. \<not> length idxs < 6) clusters)"

text \<open>The extents along and across the x axis over all sampled points, boosted.\<close>

definition xAxisExtents :: "vec3 list \<Rightarrow> real \<times> real" where
  "xAxisExtents sampled =
     (let absX = map (\<lambda>(x, y, z). \<bar>x\<bar>) sampled;
          rPerpX = map (\<lambda>(x, y, z). sqrt (y * y + z * z)) sampled;
          t95_px = (if absX \<noteq> [] then percentile absX OVERLAY_PERCENTILE else 8);
          r95_px = (if rPerpX \<noteq> [] then percentile rPerpX OVERLAY_PERCENTILE else 2)
      in (max 0.01 (t95_px * P_PX_AXIAL_BOOST), max 0.01 (r95_px * P_PX_RADIAL_BOOST)))"

text \<open>
  \<open>if (lobesComputed.length < 2) { ...; lobesComputed.push(...); lobesComputed.push(...); }\<close>:
  the two x-aligned lobes are appended to what the clusters gave.
\<close>

definition withXFallback :: "vec3 list \<Rightarrow> lobe list \<Rightarrow> lobe list" where
  "withXFallback sampled lobesComputed =
     (if length lobesComputed < 2 then
        (case xAxisExtents sampled of (t95_px, r95_px) \<Rightarrow>
           lobesComputed @ [\<lparr>axisUnit = (1, 0, 0), t95 = t95_px, r95 = r95_px\<rparr>,
                            \<lparr>axisUnit = (- 1, 0, 0), t95 = t95_px, r95 = r95_px\<rparr>])
      else lobesComputed)"

text \<open>
  The search for the lobe most aligned with x: \<open>bestIdx\<close> and \<open>bestAlign\<close> start at -1
  and a later lobe wins only with a strictly larger \<open>|axisUnit[0]|\<close>.
\<close>

fun bestAlignLoop :: "lobe list \<Rightarrow> nat \<Rightarrow> int \<Rightarrow> real \<Rightarrow> int" where
  "bestAlignLoop [] i bestIdx bestAlign = bestIdx"
| "bestAlignLoop (L # Ls) i bestIdx bestAlign =
     (let align = \<bar>fst (axisUnit L)\<bar>
      in if align > bestAlign then bestAlignLoop Ls (i + 1) (int i) align
         else bestAlignLoop Ls (i + 1) bestIdx bestAlign)"

definition canonicalExtents :: "vec3 list \<Rightarrow> lobe list \<Rightarrow> real \<times> real" where
  "canonicalExtents sampled lobesComputed =
     (let bestIdx = bestAlignLoop lobesComputed 0 (- 1) (- 1)
      in if bestIdx \<ge> 0
         then (t95 (lobesComputed ! nat bestIdx), r95 (lobesComputed ! nat bestIdx))
         else xAxisExtents sampled)"

definition lobesFinalOf :: "vec3 list \<Rightarrow> lobe list \<Rightarrow> lobe list" where
  "lobesFinalOf sampled lobesComputed =
     (case canonicalExtents sampled lobesComputed of (canonicalT, canonicalR) \<Rightarrow>
        let lobesFinal = map (\<lambda>L. \<lparr>axisUnit = axisUnit L, t95 = canonicalT, r95 = canonicalR\<rparr>)
                           lobesComputed
        in if length lobesFinal = 1
           then (case axisUnit (lobesFinal ! 0) of (ax, ay, az) \<Rightarrow>
                   lobesFinal @ [\<lparr>axisUnit = (- ax, - ay, - az), t95 = canonicalT, r95 = canonicalR\<rparr>])
           else lobesFinal)"

text \<open>The whole branch, with the cursor of the random source after the clustering.\<close>

definition overlayP :: "rng \<Rightarrow> nat \<Rightarrow> vec3 list \<Rightarrow> overlay \<times> nat" where
  "overlayP rnd c sampled =
     (if length sampled < 6 then
        (OverlayP [\<lparr>axisUnit = (1, 0, 0), t95 = 8, r95 = 2\<rparr>,
                   \<lparr>axisUnit = (- 1, 0, 0), t95 = 8, r95 = 2\<rparr>], c)
      else
        let (clusters, c') = kmeans rnd sampled (length sampled) 2 30 c;
            lobesComputed = withXFallback sampled (lobesOfClusters sampled clusters)
        in (OverlayP (lobesFinalOf sampled lobesComputed), c'))"

text \<open>The lobes of a descriptor of the lobe-pair kind.\<close>

fun lobesOf :: "overlay \<Rightarrow> lobe list" where
  "lobesOf (OverlayP ls) = ls"
| "lobesOf _ = []"

subsection \<open>The branch \<open>l = 0\<close>\<close>

definition S_OVERLAY_SCALE :: real where "S_OVERLAY_SCALE = 0.98"

definition overlayS :: "vec3 list \<Rightarrow> overlay" where
  "overlayS sampled =
     (let dists = map (\<lambda>(x, y, z). sqrt (x * x + y * y + z * z)) sampled;
          r95 = percentile dists OVERLAY_PERCENTILE
      in OverlayS (max 0.5 (r95 * S_OVERLAY_SCALE)))"

subsection \<open>The dispatch\<close>

text \<open>
  The deferred callback of \<open>computeOverlay\<close> on the sampled copy: \<open>l\<close> and \<open>m\<close> are what
  \<open>parseInt\<close> gives for the two widgets (\<open>None\<close> for \<open>NaN\<close>). The branch for \<open>l = 2\<close>,
  \<open>m \<noteq> 0\<close> (four clustered lobes) plays no part in the properties below and is the
  parameter \<open>dBranch\<close>.
\<close>

type_synonym dBranch = "rng \<Rightarrow> nat \<Rightarrow> vec3 list \<Rightarrow> overlay \<times> nat"

definition overlayFit :: "dBranch \<Rightarrow> rng \<Rightarrow> nat \<Rightarrow> int option \<Rightarrow> int option \<Rightarrow> vec3 list \<Rightarrow> overlay \<times> nat" where
  "overlayFit dBranch rnd c l m sampled =
     (if l = Some 0 then (overlayS sampled, c)
      else if l = Some 1 then overlayP rnd c sampled
      else if l = Some 2 then
        (if m = Some 0 then (overlayDz2 sampled, c) else dBranch rnd c sampled)
      else (OverlayNone, c))"

text \<open>
  \<open>computeOverlay\<close> as a function of what it reads: whether overlays are enabled, the
  buffer, the count, and the two widgets; it gives the new overlay cache, \<open>None\<close> for
  \<open>null\<close>. The 8 ms between the copy of the samples and the fit are not modelled.
\<close>

definition computeOverlay :: "dBranch \<Rightarrow> rng \<Rightarrow> nat \<Rightarrow> bool \<Rightarrow> vec3 list option \<Rightarrow> nat \<Rightarrow> int option \<Rightarrow> int option \<Rightarrow> overlay option \<times> nat" where
  "computeOverlay dBranch rnd c overlayEnabled buffer n l m =
     (if \<not> overlayEnabled then (None, c)
      else
        (case buffer of
           None \<Rightarrow> (None, c)
         | Some buf \<Rightarrow>
             if n \<le> 0 then (None, c)
             else
               (case overlayFit dBranch rnd c l m (overlaySampled buf n) of
                  (cache, c') \<Rightarrow> (Some cache, c'))))"

text \<open>A stand-in for the branch that the properties below never reach.\<close>

definition noDBranch :: dBranch where
  "noDBranch = (\<lambda>rnd c sampled. (OverlayNone, c))"

section \<open>Sampling sessions\<close>

text \<open>
  The input widgets as \<open>createOrbitalFromUI\<close> reads them: the result of \<open>parseInt\<close> or
  \<open>parseFloat\<close> on each value, \<open>None\<close> for \<open>NaN\<close>.
\<close>

record ui =
  nInput :: "int option"
  lInput :: "int option"
  mInput :: "int option"
  electronSizeInput :: "real option"
  numElectronsInput :: "int option"

text \<open>
  What a chunk closure of \<open>sampleOrbitalChunked\<close> captures. \<open>k\<close>, \<open>thetaScale\<close>,
  \<open>radialScale\<close> and \<open>minR\<close> are functions of \<open>n\<close> and \<open>l\<close> and are recomputed where used;
  \<open>numSamples\<close> is positive once the closure exists.
\<close>

record sampler =
  qN :: int
  qL :: int
  qM :: int
  numSamples :: nat
  electronSize :: real
  samplingId :: nat
  maxAngular :: real

text \<open>
  A pending \<open>setTimeout\<close> callback: the deferred call of \<open>sampleOrbitalChunked(n, l, m,
  numElectrons, electronSize, mySamplingId, ...)\<close>, or a rescheduled chunk.
\<close>

datatype task =
    StartSampling int int int int real nat
  | Chunk sampler

type_synonym uiHash = "int \<times> int \<times> int \<times> real \<times> int \<times> string"

text \<open>
  The globals of the sketch that a sampling session reads or writes, the pending timers
  with their delays, and the cursor of the random source. \<open>positions\<close> and \<open>sizes\<close>
  list the values assigned to the slots of the two typed buffers, \<open>None\<close> for \<open>null\<close>;
  what a buffer then holds is the \<open>float32Array\<close> of the list. \<open>onDoneCalls\<close> is not a
  variable of the sketch: it records, in order, the session id of every invocation of the
  completion callback. The display buffers, the overlay cache, the inner orbitals of the
  'complete' mode and the camera are rendering state and are left out, with the steps of
  the completion handler that only write them.
\<close>

record app =
  ui :: "ui option"
  orbitalMode :: string
  lastUIHash :: "uiHash option"
  currentSamplingId :: nat
  positions :: "vec3 list option"
  sizes :: "real list option"
  sampleCount :: nat
  sampleTarget :: nat
  sampling :: bool
  timers :: "(nat \<times> task) list"
  rngCursor :: nat
  onDoneCalls :: "nat list"

subsection \<open>The normalizer on the globals\<close>

definition pushElectronsOutward :: "rng \<Rightarrow> pushArgs \<Rightarrow> app \<Rightarrow> app" where
  "pushElectronsOutward rnd a s =
     (case positions s of
        None \<Rightarrow> s
      | Some buf \<Rightarrow>
          if sampleCount s \<le> 0 then s
          else
            let (buf', c') = pushBuffer rnd a (rngCursor s) (sampleCount s) buf
            in s\<lparr>positions := Some buf', rngCursor := c'\<rparr>)"

subsection \<open>Starting a session\<close>

text \<open>
  The values \<open>createOrbitalFromUI\<close> works with after its repairs: \<open>n\<close> below 1 or
  \<open>NaN\<close> becomes 1, \<open>l\<close> below 0 or \<open>NaN\<close> becomes 0, \<open>m\<close> \<open>NaN\<close> becomes 0, a
  non-positive size becomes 1, a negative count becomes 0 and a count above
  \<open>MAX_ELECTRONS\<close> becomes \<open>MAX_ELECTRONS\<close>.
\<close>

definition readN :: "ui \<Rightarrow> int" where
  "readN u = (case nInput u of None \<Rightarrow> 1 | Some v \<Rightarrow> if v < 1 then 1 else v)"

definition readL :: "ui \<Rightarrow> int" where
  "readL u = (case lInput u of None \<Rightarrow> 0 | Some v \<Rightarrow> if v < 0 then 0 else v)"

definition readM :: "ui \<Rightarrow> int" where
  "readM u = (case mInput u of None \<Rightarrow> 0 | Some v \<Rightarrow> v)"

definition readElectronSize :: "ui \<Rightarrow> real" where
  "readElectronSize u =
     (case electronSizeInput u of None \<Rightarrow> 1 | Some v \<Rightarrow> if v \<le> 0 then 1 else v)"

definition readNumElectrons :: "ui \<Rightarrow> int" where
  "readNumElectrons u =
     (let numElectrons = (case numElectronsInput u of None \<Rightarrow> 0
                          | Some v \<Rightarrow> if v < 0 then 0 else v)
      in if numElectrons > MAX_ELECTRONS then MAX_ELECTRONS else numElectrons)"

text \<open>The widgets after the repaired values are written back.\<close>

definition repairedUI :: "ui \<Rightarrow> ui" where
  "repairedUI u =
     \<lparr>nInput = Some (readN u), lInput = Some (readL u), mInput = Some (readM u),
      electronSizeInput = Some (readElectronSize u),
      numElectronsInput = Some (readNumElectrons u)\<rparr>"

definition createOrbitalFromUI :: "app \<Rightarrow> app" where
  "createOrbitalFromUI s =
     (case ui s of
        None \<Rightarrow> s
      | Some u \<Rightarrow>
          let n = readN u;
              l = readL u;
              m = readM u;
              eSize = readElectronSize u;
              numElectrons = readNumElectrons u;
              s1 = s\<lparr>ui := Some (repairedUI u)\<rparr>
          in if l \<ge> n then s1
             else if \<bar>m\<bar> > l then s1
             else
               let uiHash = (n, l, m, eSize, numElectrons, orbitalMode s)
               in if lastUIHash s = Some uiHash then s1
                  else
                    let s2 = s1\<lparr>lastUIHash := Some uiHash\<rparr>
                    in if numElectrons = 0 then
                         s2\<lparr>positions := None, sizes := None, sampleCount := 0,
                            sampleTarget := 0, sampling := False\<rparr>
                       else
                         let mySamplingId = currentSamplingId s + 1
                         in s2\<lparr>currentSamplingId := mySamplingId,
                               positions := Some (replicate (nat numElectrons) (0, 0, 0)),
                               sizes := Some (replicate (nat numElectrons) 0),
                               sampleCount := 0,
                               sampleTarget := nat numElectrons,
                               sampling := True,
                               timers := timers s @
                                 [(10, StartSampling n l m numElectrons eSize mySamplingId)]\<rparr>)"

subsection \<open>The completion handler\<close>

text \<open>
  The callback that \<open>createOrbitalFromUI\<close> passes to the sampler: it returns at once when
  its session is no longer the current one, and otherwise ends the sampling and runs the
  normalizer, in near-nucleus mode for \<open>l = 2, m = 0\<close>.
\<close>

definition onDoneArgs :: "int \<Rightarrow> int \<Rightarrow> pushArgs" where
  "onDoneArgs l m =
     (let applyNearDoubling = (l = 2 \<and> m = 0)
      in \<lparr>globalFactor = GLOBAL_RADIAL_PUSH, equatorialFactor = EQ_RADIAL_PUSH,
          applyNearMultiplier = applyNearDoubling, nearMultiplier = NEAR_NUCLEAR_PUSH_MULT,
          nearThresholdParam = (if applyNearDoubling then Some NEAR_THRESHOLD_ABS else None),
          nearEquatorialThresholdParam =
            (if applyNearDoubling then Some NEAR_THRESHOLD_EQ_ABS else None)\<rparr>)"

definition onDone :: "rng \<Rightarrow> int \<Rightarrow> int \<Rightarrow> nat \<Rightarrow> app \<Rightarrow> app" where
  "onDone rnd l m mySamplingId s0 =
     (let s = s0\<lparr>onDoneCalls := onDoneCalls s0 @ [mySamplingId]\<rparr>
      in if mySamplingId \<noteq> currentSamplingId s then s
         else pushElectronsOutward rnd (onDoneArgs l m) (s\<lparr>sampling := False\<rparr>))"

subsection \<open>The chunked sampler\<close>

fun estimateLoop :: "rng \<Rightarrow> int \<Rightarrow> int \<Rightarrow> nat \<Rightarrow> nat \<Rightarrow> real \<Rightarrow> real \<times> nat" where
  "estimateLoop rnd l m 0 c maxVal = (maxVal, c)"
| "estimateLoop rnd l m (Suc trials) c maxVal =
     (let cosT = random2 rnd c (- 1) 1;
          theta = arccos cosT;
          phi = random2 rnd (c + 1) 0 TWO_PI;
          v = angularProb theta phi l m
      in estimateLoop rnd l m trials (c + 2) (if v > maxVal then v else maxVal))"

definition estimateMaxAngular :: "rng \<Rightarrow> int \<Rightarrow> int \<Rightarrow> nat \<Rightarrow> nat \<Rightarrow> real \<times> nat" where
  "estimateMaxAngular rnd l m trialCount c = estimateLoop rnd l m trialCount c (1 / 10 ^ 20)"

text \<open>
  The angular sub-attempts \<open>for (let aTry = 0; aTry < 20; aTry++)\<close>: whether one was
  accepted, the last angles drawn, and the cursor.
\<close>

fun angularTries :: "rng \<Rightarrow> int \<Rightarrow> int \<Rightarrow> real \<Rightarrow> nat \<Rightarrow> nat \<Rightarrow> real \<Rightarrow> real \<Rightarrow> bool \<times> real \<times> real \<times> nat" where
  "angularTries rnd l m maxA 0 c thetaS phiS = (False, thetaS, phiS, c)"
| "angularTries rnd l m maxA (Suc tries) c thetaS phiS =
     (let cosT = random2 rnd c (- 1) 1;
          thetaS' = arccos cosT;
          phiS' = random2 rnd (c + 1) 0 TWO_PI;
          ang = angularProb thetaS' phiS' l m
      in if rnd (c + 2) < ang / maxA then (True, thetaS', phiS', c + 3)
         else angularTries rnd l m maxA tries (c + 3) thetaS' phiS')"

text \<open>
  One pass of the body of the \<open>while\<close> loop after \<open>attemptsThisChunk++\<close>: the accepted
  point, or \<open>None\<close> where the body ends in \<open>continue\<close>, and the cursor.
\<close>

definition sampleAttempt :: "rng \<Rightarrow> sampler \<Rightarrow> nat \<Rightarrow> vec3 option \<times> nat" where
  "sampleAttempt rnd P c =
     (case sumExp_loop rnd (shapeK (qL P)) c 0 of (sumExp, c1) \<Rightarrow>
        let r = thetaScale (qN P) * sumExp * radialScale (qL P)
        in if r < minAllowed then (None, c1)
           else
             (case angularTries rnd (qL P) (qM P) (maxAngular P) 20 c1 0 0 of
                (accepted, thetaS, phiS, c2) \<Rightarrow>
                  if \<not> accepted then (None, c2)
                  else (Some (r * sin thetaS * cos phiS, r * sin thetaS * sin phiS,
                              r * cos thetaS), c2)))"

text \<open>
  How a run of the \<open>while\<close> loop ends: the chunk returned from inside it (stale session),
  a write to a \<open>null\<close> buffer threw, or the loop condition failed with the attempts made.
\<close>

datatype loopExit = Returned app | Threw app | Exited nat app

function chunkLoop :: "rng \<Rightarrow> sampler \<Rightarrow> nat \<Rightarrow> nat \<Rightarrow> app \<Rightarrow> loopExit" where
  "chunkLoop rnd P stopIndex attemptsThisChunk s =
     (if sampleCount s < stopIndex \<and> attemptsThisChunk < ATTEMPTS_PER_CHUNK then
        if samplingId P \<noteq> currentSamplingId s then Returned s
        else
          (case sampleAttempt rnd P (rngCursor s) of
             (None, c') \<Rightarrow>
               chunkLoop rnd P stopIndex (attemptsThisChunk + 1) (s\<lparr>rngCursor := c'\<rparr>)
           | (Some p, c') \<Rightarrow>
               (case positions s of
                  None \<Rightarrow> Threw (s\<lparr>rngCursor := c'\<rparr>)
                | Some ps \<Rightarrow>
                    (case sizes s of
                       None \<Rightarrow> Threw (s\<lparr>positions := Some (ps[sampleCount s := p]),
                                         rngCursor := c'\<rparr>)
                     | Some zs \<Rightarrow>
                         chunkLoop rnd P stopIndex (attemptsThisChunk + 1)
                           (s\<lparr>positions := Some (ps[sampleCount s := p]),
                              sizes := Some (zs[sampleCount s := electronSize P]),
                              sampleCount := sampleCount s + 1,
                              rngCursor := c'\<rparr>))))
      else Exited attemptsThisChunk s)"
  by pat_completeness auto
termination
  by (relation "measure (\<lambda>(rnd, P, stopIndex, attemptsThisChunk, s).
                           ATTEMPTS_PER_CHUNK - attemptsThisChunk)") auto

declare chunkLoop.simps [simp del]

text \<open>
  One point of the fallback fill: radius \<open>rMax * pow(random(), 1/3) * radialScale\<close>,
  redrawn as \<open>minR + (rMax - minR) * pow(random(), 1/3)\<close> when below \<open>minR\<close>, at a
  uniformly drawn direction.
\<close>

definition fallbackRMax :: "int \<Rightarrow> real" where
  "fallbackRMax n = max 1 (real_of_int n * real_of_int n * a0 * 1.8)"

definition fallbackRadius :: "rng \<Rightarrow> sampler \<Rightarrow> nat \<Rightarrow> real \<times> nat" where
  "fallbackRadius rnd P c =
     (let rMax = fallbackRMax (qN P);
          rr = rMax * (rnd c powr (1 / 3)) * radialScale (qL P)
      in if rr < minAllowed
         then (minAllowed + (rMax - minAllowed) * (rnd (c + 1) powr (1 / 3)), c + 2)
         else (rr, c + 1))"

definition fallbackPoint :: "rng \<Rightarrow> sampler \<Rightarrow> nat \<Rightarrow> vec3 \<times> nat" where
  "fallbackPoint rnd P c =
     (case fallbackRadius rnd P c of (rr, c1) \<Rightarrow>
        let theta2 = arccos (random2 rnd c1 (- 1) 1);
            phi2 = random2 rnd (c1 + 1) 0 TWO_PI
        in ((rr * sin theta2 * cos phi2, rr * sin theta2 * sin phi2, rr * cos theta2), c1 + 2))"

text \<open>\<open>for (let i = sampleCount; i < numSamples; i++)\<close> on buffers that exist.\<close>

fun fallbackLoop :: "rng \<Rightarrow> sampler \<Rightarrow> nat \<Rightarrow> nat \<Rightarrow> nat \<Rightarrow> vec3 list \<Rightarrow> real list \<Rightarrow> vec3 list \<times> real list \<times> nat" where
  "fallbackLoop rnd P 0 i c ps zs = (ps, zs, c)"
| "fallbackLoop rnd P (Suc remaining) i c ps zs =
     (case fallbackPoint rnd P c of (p, c') \<Rightarrow>
        fallbackLoop rnd P remaining (i + 1) c' (ps[i := p]) (zs[i := electronSize P]))"

text \<open>
  The fallback fill of the slots from \<open>sampleCount\<close> to \<open>numSamples\<close>, followed by
  \<open>sampleCount = numSamples\<close>. It runs only with \<open>sampleCount < numSamples\<close>, so a \<open>null\<close>
  buffer throws at the first write.
\<close>

definition fallbackFill :: "rng \<Rightarrow> sampler \<Rightarrow> app \<Rightarrow> app option" where
  "fallbackFill rnd P s =
     (case positions s of
        None \<Rightarrow> None
      | Some ps \<Rightarrow>
          (case sizes s of
             None \<Rightarrow> None
           | Some zs \<Rightarrow>
               (case fallbackLoop rnd P (numSamples P - sampleCount s) (sampleCount s)
                       (rngCursor s) ps zs of
                  (ps', zs', c') \<Rightarrow>
                    Some (s\<lparr>positions := Some ps', sizes := Some zs',
                            sampleCount := numSamples P, rngCursor := c'\<rparr>))))"

text \<open>
  The state in which a fallback fill ends by a \<open>TypeError\<close> on a \<open>null\<close> buffer: the draws
  of the first point are consumed, and the point is written if only \<open>sizes\<close> is \<open>null\<close>.
\<close>

definition fallbackThrown :: "rng \<Rightarrow> sampler \<Rightarrow> app \<Rightarrow> app" where
  "fallbackThrown rnd P s =
     (case fallbackPoint rnd P (rngCursor s) of (p, c') \<Rightarrow>
        (case positions s of
           None \<Rightarrow> s\<lparr>rngCursor := c'\<rparr>
         | Some ps \<Rightarrow> s\<lparr>positions := Some (ps[sampleCount s := p]), rngCursor := c'\<rparr>))"

text \<open>The function \<open>chunk\<close> inside \<open>sampleOrbitalChunked\<close>.\<close>

definition chunk :: "rng \<Rightarrow> sampler \<Rightarrow> app \<Rightarrow> app" where
  "chunk rnd P s =
     (if samplingId P \<noteq> currentSamplingId s then s
      else
        let stopIndex = min (numSamples P) (sampleCount s + CHUNK_SAMPLES);
            startCount = sampleCount s
        in case chunkLoop rnd P stopIndex 0 s of
             Returned s1 \<Rightarrow> s1
           | Threw s1 \<Rightarrow> s1
           | Exited attemptsThisChunk s1 \<Rightarrow>
               if sampleCount s1 < numSamples P then
                 if attemptsThisChunk \<ge> ATTEMPTS_PER_CHUNK \<and> sampleCount s1 = startCount then
                   (case fallbackFill rnd P s1 of
                      None \<Rightarrow> fallbackThrown rnd P s1
                    | Some s2 \<Rightarrow> onDone rnd (qL P) (qM P) (samplingId P) s2)
                 else if samplingId P \<noteq> currentSamplingId s1 then s1
                 else if attemptsThisChunk \<ge> ATTEMPTS_PER_CHUNK
                 then s1\<lparr>timers := timers s1 @ [(10, Chunk P)]\<rparr>
                 else s1\<lparr>timers := timers s1 @ [(0, Chunk P)]\<rparr>
               else onDone rnd (qL P) (qM P) (samplingId P) s1)"

definition sampleOrbitalChunked :: "rng \<Rightarrow> int \<Rightarrow> int \<Rightarrow> int \<Rightarrow> int \<Rightarrow> real \<Rightarrow> nat \<Rightarrow> app \<Rightarrow> app" where
  "sampleOrbitalChunked rnd n l m numSamplesArg eSize sid s =
     (if numSamplesArg \<le> 0 then onDone rnd l m sid s
      else
        (case estimateMaxAngular rnd l m 500 (rngCursor s) of (mx, c') \<Rightarrow>
           chunk rnd
             \<lparr>qN = n, qL = l, qM = m, numSamples = nat numSamplesArg, electronSize = eSize,
              samplingId = sid, maxAngular = mx * 1.2\<rparr>
             (s\<lparr>rngCursor := c'\<rparr>)))"

subsection \<open>The end of the chunk in the older copy\<close>

text \<open>
  The older copy of \<open>sampleOrbitalChunked\<close> (lines 1450 to 1531) ends its chunk
  differently (lines 1505 to 1528): with the count not reached it returns or reschedules
  itself, and its fallback fill sits in the other branch, under a second test of
  \<open>sampleCount < numSamples\<close>. \<open>attemptsThisChunk\<close> and the state are those at the exit of
  the loop; \<open>fill\<close> is the fill, giving \<open>Inr\<close> the filled state or \<open>Inl\<close> the state in
  which a write threw; \<open>onDoneCb\<close> is the callback. The closure that is rescheduled is
  recorded as \<open>Chunk P\<close>. \<open>ATTEMPTS_PER_CHUNK\<close> is 20000 in that copy.
\<close>

definition ATTEMPTS_PER_CHUNK_OLD :: nat where "ATTEMPTS_PER_CHUNK_OLD = 20000"

definition chunkTailOld :: "(app \<Rightarrow> app + app) \<Rightarrow> (app \<Rightarrow> app) \<Rightarrow> sampler \<Rightarrow> nat \<Rightarrow> app \<Rightarrow> app" where
  "chunkTailOld fill onDoneCb P attemptsThisChunk s =
     (if sampleCount s < numSamples P then
        if samplingId P \<noteq> currentSamplingId s then s
        else if attemptsThisChunk \<ge> ATTEMPTS_PER_CHUNK_OLD
        then s\<lparr>timers := timers s @ [(10, Chunk P)]\<rparr>
        else s\<lparr>timers := timers s @ [(0, Chunk P)]\<rparr>
      else if sampleCount s < numSamples P then
        (case fill s of Inl s' \<Rightarrow> s' | Inr s2 \<Rightarrow> onDoneCb s2)
      else onDoneCb s)"

subsection \<open>The event loop\<close>

text \<open>
  The sketch runs on one thread: a timer callback runs to its end before anything else
  does. An event is a user request (the widgets are set and \<open>createOrbitalFromUI\<close> runs)
  or the firing of one pending timer, in any order.
\<close>

fun runTask :: "rng \<Rightarrow> task \<Rightarrow> app \<Rightarrow> app" where
  "runTask rnd (StartSampling n l m numSamplesArg eSize sid) s =
     sampleOrbitalChunked rnd n l m numSamplesArg eSize sid s"
| "runTask rnd (Chunk P) s = chunk rnd P s"

fun taskSession :: "task \<Rightarrow> nat" where
  "taskSession (StartSampling n l m numSamplesArg eSize sid) = sid"
| "taskSession (Chunk P) = samplingId P"

datatype event = Request ui string | Fire nat

text \<open>The timers of a state without the one at index \<open>i\<close>.\<close>

definition withoutTimer :: "nat \<Rightarrow> app \<Rightarrow> app" where
  "withoutTimer i s = s\<lparr>timers := take i (timers s) @ drop (Suc i) (timers s)\<rparr>"

fun step :: "rng \<Rightarrow> event \<Rightarrow> app \<Rightarrow> app" where
  "step rnd (Request u mode) s = createOrbitalFromUI (s\<lparr>ui := Some u, orbitalMode := mode\<rparr>)"
| "step rnd (Fire i) s =
     (if i < length (timers s)
      then runTask rnd (snd (timers s ! i)) (withoutTimer i s)
      else s)"

fun run :: "rng \<Rightarrow> event list \<Rightarrow> app \<Rightarrow> app" where
  "run rnd [] s = s"
| "run rnd (e # es) s = run rnd es (step rnd e s)"

section \<open>Concrete states and random sources\<close>

text \<open>The globals as the sketch declares them, before any request.\<close>

definition idleApp :: app where
  "idleApp = \<lparr>ui = None, orbitalMode = ''basic'', lastUIHash = None, currentSamplingId = 0,
              positions = None, sizes = None, sampleCount = 0, sampleTarget = 0,
              sampling = False, timers = [], rngCursor = 0, onDoneCalls = []\<rparr>"


text \<open>
  A buffer of nine points on the z axis, eight at height 130 and one at height 1000:
  each is farther than 120 from the origin, as after the normalizer in near-nucleus mode.
\<close>

definition axialBuffer :: "vec3 list" where
  "axialBuffer = replicate 8 (0, 0, 130) @ [(0, 0, 1000)]"

text \<open>A request with the given quantum numbers and count, at electron size 1.\<close>

definition req :: "int \<Rightarrow> int \<Rightarrow> int \<Rightarrow> int \<Rightarrow> ui" where
  "req n l m cnt = \<lparr>nInput = Some n, lInput = Some l, mInput = Some m,
                    electronSizeInput = Some 1, numElectronsInput = Some cnt\<rparr>"

section \<open>Notions used in the statements about sessions\<close>

text \<open>The state in which a run of the sampling loop ends, however it ends.\<close>

fun exitState :: "loopExit \<Rightarrow> app" where
  "exitState (Returned s) = s"
| "exitState (Threw s) = s"
| "exitState (Exited attemptsThisChunk s) = s"

text \<open>
  The part of the state that the sampling loop and the fallback fill never write: all
  but the two buffers, the count of samples and the cursor of the random source.
\<close>

definition control :: "app \<Rightarrow> ui option \<times> string \<times> uiHash option \<times> nat \<times> nat \<times> bool \<times> (nat \<times> task) list \<times> nat list" where
  "control s = (ui s, orbitalMode s, lastUIHash s, currentSamplingId s, sampleTarget s,
                sampling s, timers s, onDoneCalls s)"

text \<open>The capacity of the sample buffer, when there is one.\<close>

definition capacity :: "app \<Rightarrow> nat option" where
  "capacity s = map_option length (positions s)"

text \<open>
  Every pending timer belongs to a session that was started, and a pending start of the
  sampler carries a positive count, as \<open>createOrbitalFromUI\<close> schedules it.
\<close>

fun startPositive :: "task \<Rightarrow> bool" where
  "startPositive (StartSampling n l m numSamplesArg eSize sid) = (0 < numSamplesArg)"
| "startPositive (Chunk P) = True"

definition pendingOK :: "app \<Rightarrow> bool" where
  "pendingOK s =
     list_all (\<lambda>(delay, t). taskSession t \<le> currentSamplingId s \<and> startPositive t) (timers s)"

text \<open>The target and the capacity of the sample buffer are at most \<open>N\<close>.\<close>

definition bufferWithin :: "nat \<Rightarrow> app \<Rightarrow> bool" where
  "bufferWithin N s =
     (sampleTarget s \<le> N \<and> (case positions s of None \<Rightarrow> True | Some buf \<Rightarrow> length buf \<le> N))"

text \<open>
  What the run of a timer of session \<open>sid\<close> may change besides the buffers, the count
  and the cursor: it may schedule timers of its own session and invoke the completion
  callback of its own session, and it leaves the session counter, the target and the
  capacity of the buffer as they are.
\<close>

definition taskEffect :: "nat \<Rightarrow> app \<Rightarrow> app \<Rightarrow> bool" where
  "taskEffect sid s s' =
     (currentSamplingId s' = currentSamplingId s \<and>
      capacity s' = capacity s \<and>
      sampleTarget s' = sampleTarget s \<and>
      (\<exists>ts. timers s' = timers s @ ts \<and>
            list_all (\<lambda>(delay, t). taskSession t = sid \<and> startPositive t) ts) \<and>
      (\<exists>ds. onDoneCalls s' = onDoneCalls s @ ds \<and> set ds \<subseteq> {sid}))"

text \<open>
  The sketch after one request for 2 samples of the 1s orbital, with the start of
  session 1 pending, and after a second request, for 3 samples, that starts session 2.
\<close>

definition oneRequest :: app where
  "oneRequest = step (\<lambda>i. 0) (Request (req 1 0 0 2) ''basic'') idleApp"

definition twoRequests :: app where
  "twoRequests = step (\<lambda>i. 0) (Request (req 1 0 0 3) ''basic'') oneRequest"

text \<open>
  Seven samples on the x axis, six on the positive side and one on the negative side, and
  a random source that makes k-means start from the first and the last of them.
\<close>

definition sevenPoints :: "vec3 list" where
  "sevenPoints = replicate 6 (25, 0, 0) @ [(- 25, 0, 0)]"

definition kmeansRnd :: rng where
  "kmeansRnd = (\<lambda>i. if i = 0 then 0 else 9 / 10)"





text \<open>The largest radius of a fallback point: \<open>rMax\<close>, or \<open>rMax * radialScale\<close> if larger.\<close>

definition fallbackCutoff :: "int \<Rightarrow> int \<Rightarrow> real" where
  "fallbackCutoff n l = fallbackRMax n * max 1 (radialScale l)"


text \<open>
  Two buffers of one point for the normalizer: a point at distance \<open>sqrt 300\<close>, below
  the minimum, and a point at distance 30.
\<close>

definition innerPointApp :: app where
  "innerPointApp = idleApp\<lparr>positions := Some [(10, 10, 10)], sampleCount := 1\<rparr>"

definition outerPointApp :: app where
  "outerPointApp = idleApp\<lparr>positions := Some [(30, 0, 0)], sampleCount := 1\<rparr>"




section \<open>Verified properties: wavefunction helpers\<close>

text \<open>
  C7. The recurrence gives the closed forms. For every \<open>x\<close>, \<open>P_0^0 = 1\<close>,
  \<open>P_1^0(x) = x\<close> and \<open>P_2^0(x) = 0.5 (3 x^2 - 1)\<close>. For every \<open>x\<close> in \<open>[-1, 1]\<close>, where
  the closed form is defined, \<open>P_1^1(x) = - sqrt (1 - x^2)\<close>; in particular at
  \<open>x = cos theta\<close> for every \<open>theta\<close>, the only argument the sketch passes.
\<close>

theorem associatedLegendre_closed_forms:
  "associatedLegendre 0 0 x = 1 \<and>
   associatedLegendre 1 0 x = x \<and>
   (\<bar>x\<bar> \<le> 1 \<longrightarrow> associatedLegendre 1 1 x = - sqrt (1 - x\<^sup>2)) \<and>
   associatedLegendre 1 1 (cos theta) = - sqrt (1 - (cos theta)\<^sup>2) \<and>
   associatedLegendre 2 0 x = 0.5 * (3 * x\<^sup>2 - 1)"
proof -
  have sq: "\<bar>y\<bar> \<le> 1 \<longleftrightarrow> y * y \<le> 1" for y :: real
    using abs_le_square_iff [of y 1] by (simp add: power2_eq_square)
  have p11: "associatedLegendre 1 1 y = - sqrt (max 0 (1 - y * y))" for y
    by (simp add: associatedLegendre_def)
  have a: "\<bar>y\<bar> \<le> 1 \<longrightarrow> associatedLegendre 1 1 y = - sqrt (1 - y\<^sup>2)" for y
    using sq [of y] by (simp add: p11 max_def power2_eq_square)
  have b: "associatedLegendre 1 1 (cos theta) = - sqrt (1 - (cos theta)\<^sup>2)"
    using a [of "cos theta"] by simp
  have c: "associatedLegendre 2 0 x = 0.5 * (3 * x\<^sup>2 - 1)"
    by (simp add: associatedLegendre_def power2_eq_square)
  show ?thesis using a [of x] b c by (simp add: associatedLegendre_def)
qed

theorem associatedLegendre_closed_forms_witness:
  "\<bar>0::real\<bar> \<le> 1 \<and> associatedLegendre 1 1 0 = - 1 \<and>
   \<bar>1 / 2 :: real\<bar> \<le> 1 \<and> associatedLegendre 1 1 (1 / 2) = - sqrt (1 - (1 / 2)\<^sup>2)"
  using associatedLegendre_closed_forms [of 0 0] associatedLegendre_closed_forms [of "1 / 2" 0]
  by simp

section \<open>Verified properties: radial scale\<close>

lemma radialDraw_linear: "radialDraw rnd c n l = real_of_int n * radialDraw rnd c 1 l"
  by (simp add: radialDraw_def thetaScale_def)

lemma meanRadius_linear: "meanRadius rnd cs n l = real_of_int n * meanRadius rnd cs 1 l"
proof -
  have "(\<Sum>c\<leftarrow>cs. radialDraw rnd c n l) = real_of_int n * (\<Sum>c\<leftarrow>cs. radialDraw rnd c 1 l)"
    by (induction cs) (simp_all add: radialDraw_linear [of rnd _ n l] algebra_simps)
  then show ?thesis by (simp add: meanRadius_def)
qed

text \<open>
  C8. \<open>radialLScale\<close> does not increase from \<open>l\<close> to a larger \<open>l'\<close> and is at least 0.6
  for every \<open>l\<close>. The radius drawn before rejection, for any values of the random source,
  is \<open>n\<close> times the radius drawn with \<open>n = 1\<close>, and so is its mean over any batch of draws:
  the mean is proportional to \<open>n\<close> for fixed \<open>l\<close>.
\<close>

theorem radialLScale_monotone_floor_and_mean_linear:
  "(0 \<le> l \<and> l \<le> l' \<longrightarrow> radialLScale l' \<le> radialLScale l) \<and>
   0.6 \<le> radialLScale l \<and>
   radialDraw rnd c n l = real_of_int n * radialDraw rnd c 1 l \<and>
   meanRadius rnd cs n l = real_of_int n * meanRadius rnd cs 1 l"
proof -
  have "0 \<le> l \<and> l \<le> l' \<longrightarrow> radialLScale l' \<le> radialLScale l"
    by (auto simp add: radialLScale_def max_def)
  moreover have "0.6 \<le> radialLScale l"
    by (simp add: radialLScale_def max_def)
  ultimately show ?thesis
    using radialDraw_linear meanRadius_linear by blast
qed

theorem radialLScale_monotone_witness:
  "(0::int) \<le> 1 \<and> (1::int) \<le> 2 \<and> radialLScale 2 \<le> radialLScale 1 \<and>
   radialLScale 2 = 0.88 \<and> radialLScale 1 = 0.94"
  using radialLScale_monotone_floor_and_mean_linear [of 1 2 "\<lambda>i. 1 / 2" 0 1 "[]"]
  by (simp add: radialLScale_def)

section \<open>Verified properties: outward-push normalizer\<close>

lemma dist3_scale: "dist3 (x * s, y * s, z * s) = \<bar>s\<bar> * dist3 (x, y, z)"
proof -
  have "x * s * (x * s) + y * s * (y * s) + z * s * (z * s) = s\<^sup>2 * (x * x + y * y + z * z)"
    by (simp add: power2_eq_square algebra_simps)
  then show ?thesis by (simp add: dist3_def real_sqrt_mult)
qed

lemma pushFactor_target: "minAllowed \<le> snd (pushFactor a e r)"
  by (simp add: pushFactor_def Let_def)

lemma dist3_rescale:
  assumes "0 < dist3 (x, y, z)" "0 < t"
  shows "dist3 (x * (t / dist3 (x, y, z)), y * (t / dist3 (x, y, z)), z * (t / dist3 (x, y, z))) = t"
proof -
  define s where "s = t / dist3 (x, y, z)"
  have "0 < s" using assms by (simp add: s_def)
  then have "dist3 (x * s, y * s, z * s) = s * dist3 (x, y, z)" by (simp add: dist3_scale)
  also have "\<dots> = t" using assms by (simp add: s_def)
  finally show ?thesis by (simp only: s_def)
qed

lemma unit_sq: "(c::real) * c + s * s = 1 \<Longrightarrow> c * R * (c * R) + s * R * (s * R) = R * R"
proof -
  assume h: "c * c + s * s = 1"
  have "c * R * (c * R) + s * R * (s * R) = (c * c + s * s) * (R * R)" by (simp add: algebra_simps)
  then show ?thesis by (simp only: h mult_1)
qed

lemma cs1: "cos (a::real) * cos a + sin a * sin a = 1"
  using sin_cos_squared_add2 [of a] by (simp add: power2_eq_square)

lemma dist3_planar: "dist3 (cos a * R, sin a * R, 0) = \<bar>R\<bar>"
  using unit_sq [OF cs1, of a R] by (simp add: dist3_def)

lemma dist3_polar: "dist3 (R * sin t * cos p, R * sin t * sin p, R * cos t) = \<bar>R\<bar>"
proof -
  have 1: "R * sin t * cos p * (R * sin t * cos p) + R * sin t * sin p * (R * sin t * sin p) = (R * sin t) * (R * sin t)"
    using unit_sq [OF cs1, of p "R * sin t"] by (simp add: mult.commute)
  have 2: "R * sin t * (R * sin t) + R * cos t * (R * cos t) = R * R"
    using unit_sq [OF cs1, of t R] by (simp add: mult.commute add.commute)
  show ?thesis unfolding dist3_def prod.case 1 2 by simp
qed

lemma minAllowed_val: "minAllowed = 24" by (simp add: minAllowed_def NUCLEUS_RADIUS_def ELECTRON_MIN_GAP_def)

lemma pushPoint_min: "minAllowed \<le> dist3 (fst (pushPoint rnd a e c p))"
proof -
  obtain x y z where p: "p = (x, y, z)" by (cases p) auto
  define r where "r = dist3 (x, y, z)"
  obtain f t where ft: "pushFactor a (\<bar>z\<bar> \<le> e) r = (f, t)" by (cases "pushFactor a (\<bar>z\<bar> \<le> e) r") auto
  have t: "minAllowed \<le> t" using pushFactor_target [of a "\<bar>z\<bar> \<le> e" r] ft by simp
  have mpos: "0 < minAllowed" by (simp add: minAllowed_val)
  have rr: "sqrt (x * x + y * y + z * z) = r" by (simp add: r_def dist3_def)
  have rxy: "sqrt (x * x + y * y) \<le> r" unfolding rr [symmetric] by simp
  have scaled: "minAllowed \<le> dist3 (x * (max T (r * f) / r), y * (max T (r * f) / r), z * (max T (r * f) / r))"
    if "\<not> r \<le> EPS" "minAllowed \<le> T" for T
  proof -
    have "0 < r" using that by (simp add: EPS_def)
    moreover have "0 < max T (r * f)" using that mpos by (simp add: max_def)
    ultimately have "dist3 (x * (max T (r * f) / r), y * (max T (r * f) / r), z * (max T (r * f) / r)) = max T (r * f)"
      unfolding r_def by (rule dist3_rescale)
    then show ?thesis using that by simp
  qed
  show ?thesis
    using t mpos scaled [of t] scaled [of minAllowed] rxy
    by (auto simp add: p pushPoint_def rr ft Let_def dist3_polar dist3_planar)
qed

lemma pushLoop_length: "length (fst (pushLoop rnd a e c ps)) = length ps"
  by (induction ps arbitrary: c) (simp_all add: split_def Let_def)

lemma pushLoop_nth:
  "i < length ps \<Longrightarrow> \<exists>c'. fst (pushLoop rnd a e c ps) ! i = fst (pushPoint rnd a e c' (ps ! i))"
proof (induction ps arbitrary: c i)
  case Nil
  then show ?case by simp
next
  case (Cons p ps)
  show ?case
  proof (cases i)
    case 0
    then show ?thesis by (auto simp add: split_def Let_def)
  next
    case (Suc j)
    with Cons.prems have "j < length ps" by simp
    from Cons.IH [OF this, of "snd (pushPoint rnd a e c p)"] Suc
    show ?thesis by (simp add: split_def Let_def)
  qed
qed

lemma pushBuffer_length: "length (fst (pushBuffer rnd a c n buf)) = length buf"
  by (simp add: pushBuffer_def split_def Let_def pushLoop_length)

lemma pushBuffer_nth:
  assumes "i < n" "n \<le> length buf"
  shows "\<exists>c'. fst (pushBuffer rnd a c n buf) ! i
            = fst (pushPoint rnd a (pushEqThreshold (take n buf)) c' (buf ! i))"
proof -
  have i: "i < length (take n buf)" using assms by simp
  from pushLoop_nth [OF i, of rnd a "pushEqThreshold (take n buf)" c]
  obtain c' where "fst (pushLoop rnd a (pushEqThreshold (take n buf)) c (take n buf)) ! i
     = fst (pushPoint rnd a (pushEqThreshold (take n buf)) c' (take n buf ! i))" by blast
  then show ?thesis using assms i
    by (auto simp add: pushBuffer_def split_def Let_def nth_append pushLoop_length)
qed

lemma pushElectronsOutward_positions:
  assumes "positions s = Some buf" "0 < sampleCount s"
  shows "positions (pushElectronsOutward rnd a s)
           = Some (fst (pushBuffer rnd a (rngCursor s) (sampleCount s) buf))"
  using assms by (simp add: pushElectronsOutward_def split_def Let_def)





lemma percentile_single: "percentile [v] p = v"
  by (simp add: percentile_def)

subsection \<open>The rounding of the typed buffer\<close>

lemma roundTiesToEven_error: "\<bar>real_of_int (roundTiesToEven t) - t\<bar> \<le> 1 / 2"
proof -
  have "real_of_int \<lfloor>t\<rfloor> \<le> t" "t < real_of_int \<lfloor>t\<rfloor> + 1" by linarith+
  then show ?thesis by (auto simp add: roundTiesToEven_def Let_def)
qed

lemma quantum_pos: "0 < (2::real) powi k"
  by simp

lemma fround_error: "\<bar>fround v - v\<bar> \<le> 2 powi (f32Exponent v - 23) / 2"
proof (cases "v = 0")
  case True
  then show ?thesis by (simp add: fround_def)
next
  case False
  define q :: real where "q = 2 powi (f32Exponent v - 23)"
  have q: "0 < q" by (simp add: q_def)
  have "\<bar>real_of_int (roundTiesToEven (v / q)) - v / q\<bar> \<le> 1 / 2" by (rule roundTiesToEven_error)
  then have "\<bar>real_of_int (roundTiesToEven (v / q)) - v / q\<bar> * q \<le> 1 / 2 * q"
    using q by (intro mult_right_mono) simp_all
  moreover have "\<bar>real_of_int (roundTiesToEven (v / q)) - v / q\<bar> * q
                   = \<bar>real_of_int (roundTiesToEven (v / q)) * q - v\<bar>"
  proof -
    have "real_of_int (roundTiesToEven (v / q)) * q - v
            = (real_of_int (roundTiesToEven (v / q)) - v / q) * q"
      using q by (simp add: field_simps)
    then show ?thesis using q by (simp only: abs_mult abs_of_pos)
  qed
  ultimately show ?thesis using False by (simp add: fround_def Let_def q_def [symmetric])
qed

lemma powi_floor_log: "0 < x \<Longrightarrow> 2 powi \<lfloor>log 2 x\<rfloor> \<le> (x::real)"
proof -
  assume x: "0 < x"
  have "\<lfloor>log 2 x\<rfloor> = \<lfloor>log 2 x\<rfloor>" by simp
  then have "2 powr real_of_int \<lfloor>log 2 x\<rfloor> \<le> x"
    using floor_log_eq_powr_iff [of x 2 "\<lfloor>log 2 x\<rfloor>"] x by simp
  then show ?thesis by (simp add: powr_real_of_int')
qed

lemma floor_log_ge: "2 powi k \<le> x \<Longrightarrow> k \<le> \<lfloor>log 2 (x::real)\<rfloor>"
proof -
  assume h: "2 powi k \<le> x"
  have x: "0 < x" using h quantum_pos [of k] by linarith
  have "2 powr real_of_int k \<le> x" using h by (simp add: powr_real_of_int')
  then have "real_of_int k \<le> log 2 x" using x by (simp add: le_log_iff)
  then show ?thesis by (simp add: le_floor_iff)
qed

lemma floor_log_less: "0 < x \<Longrightarrow> x < 2 powi k \<Longrightarrow> \<lfloor>log 2 (x::real)\<rfloor> < k"
proof -
  assume x: "0 < x" and h: "x < 2 powi k"
  have "x < 2 powr real_of_int k" using h by (simp add: powr_real_of_int')
  then have "log 2 x < real_of_int k" using x by (simp add: log_less_iff)
  then show ?thesis by (simp add: floor_less_iff)
qed

lemma fround_normal:
  assumes "2 powi (- 126) \<le> \<bar>v\<bar>"
  shows "\<bar>fround v - v\<bar> \<le> \<bar>v\<bar> / 2 ^ 24"
proof -
  have v: "0 < \<bar>v\<bar>" using assms quantum_pos [of "- 126"] by linarith
  have "- 126 \<le> \<lfloor>log 2 \<bar>v\<bar>\<rfloor>" using assms by (rule floor_log_ge)
  then have e: "f32Exponent v = \<lfloor>log 2 \<bar>v\<bar>\<rfloor>" by (simp add: f32Exponent_def)
  have "(2::real) powi (\<lfloor>log 2 \<bar>v\<bar>\<rfloor> - 23) = 2 powi \<lfloor>log 2 \<bar>v\<bar>\<rfloor> / 2 ^ 23"
    by (simp add: power_int_diff)
  also have "\<dots> \<le> \<bar>v\<bar> / 2 ^ 23" using powi_floor_log [OF v] by (simp add: divide_right_mono)
  finally have "2 powi (f32Exponent v - 23) / 2 \<le> \<bar>v\<bar> / 2 ^ 23 / 2" unfolding e by simp
  then show ?thesis using fround_error [of v] by simp
qed

lemma fround_subnormal:
  assumes "\<bar>v\<bar> < 2 powi (- 126)"
  shows "\<bar>fround v - v\<bar> \<le> 2 powi (- 150)"
proof (cases "v = 0")
  case True
  then show ?thesis by (simp add: fround_def)
next
  case False
  then have v: "0 < \<bar>v\<bar>" by simp
  have "\<lfloor>log 2 \<bar>v\<bar>\<rfloor> < - 126" using v assms by (rule floor_log_less)
  then have e: "f32Exponent v = - 126" by (simp add: f32Exponent_def)
  have "(2::real) powi (- 126 - 23) / 2 = 2 powi (- 150)" by simp
  then show ?thesis using fround_error [of v] unfolding e by simp
qed


lemma fround_sq_lower: "(1 - 1 / 2 ^ 24)\<^sup>2 * v\<^sup>2 - 2 powi (- 252) \<le> (fround v)\<^sup>2"
proof (cases "2 powi (- 126) \<le> \<bar>v\<bar>")
  case True
  have "\<bar>fround v - v\<bar> \<le> \<bar>v\<bar> / 2 ^ 24" using True by (rule fround_normal)
  moreover have "\<bar>v\<bar> - \<bar>fround v\<bar> \<le> \<bar>fround v - v\<bar>" by arith
  ultimately have "(1 - 1 / 2 ^ 24) * \<bar>v\<bar> \<le> \<bar>fround v\<bar>" by (simp add: algebra_simps)
  moreover have "0 \<le> (1 - 1 / 2 ^ 24) * \<bar>v\<bar>" by simp
  ultimately have "((1 - 1 / 2 ^ 24) * \<bar>v\<bar>)\<^sup>2 \<le> \<bar>fround v\<bar>\<^sup>2" by (rule power_mono)
  then have "(1 - 1 / 2 ^ 24)\<^sup>2 * v\<^sup>2 \<le> (fround v)\<^sup>2"
    unfolding power_mult_distrib power2_abs .
  moreover have "0 < (2::real) powi (- 252)" by (rule quantum_pos)
  ultimately show ?thesis by linarith
next
  case False
  then have "\<bar>v\<bar> < 2 powi (- 126)" by simp
  then have "\<bar>v\<bar>\<^sup>2 < (2 powi (- 126))\<^sup>2" by (intro power_strict_mono) simp_all
  moreover have "((2::real) powi (- 126))\<^sup>2 = 2 powi (- 252)" by (simp add: power_divide)
  ultimately have "v\<^sup>2 < 2 powi (- 252)" by (simp only: power2_abs)
  moreover have "(1 - 1 / 2 ^ 24)\<^sup>2 * v\<^sup>2 \<le> 1 * v\<^sup>2"
    by (intro mult_right_mono) (simp_all add: power2_eq_square)
  moreover have "0 \<le> (fround v)\<^sup>2" by simp
  ultimately show ?thesis by linarith
qed

lemma fround_sq_upper: "(fround v)\<^sup>2 \<le> (1 + 1 / 2 ^ 24)\<^sup>2 * v\<^sup>2 + 2 powi (- 250)"
proof (cases "2 powi (- 126) \<le> \<bar>v\<bar>")
  case True
  have "\<bar>fround v - v\<bar> \<le> \<bar>v\<bar> / 2 ^ 24" using True by (rule fround_normal)
  moreover have "\<bar>fround v\<bar> - \<bar>v\<bar> \<le> \<bar>fround v - v\<bar>" by arith
  ultimately have "\<bar>fround v\<bar> \<le> (1 + 1 / 2 ^ 24) * \<bar>v\<bar>" by (simp add: algebra_simps)
  moreover have "0 \<le> \<bar>fround v\<bar>" by simp
  ultimately have "\<bar>fround v\<bar>\<^sup>2 \<le> ((1 + 1 / 2 ^ 24) * \<bar>v\<bar>)\<^sup>2" by (rule power_mono)
  then have "(fround v)\<^sup>2 \<le> (1 + 1 / 2 ^ 24)\<^sup>2 * v\<^sup>2"
    unfolding power_mult_distrib power2_abs .
  moreover have "0 < (2::real) powi (- 250)" by (rule quantum_pos)
  ultimately show ?thesis by linarith
next
  case False
  then have s: "\<bar>v\<bar> < 2 powi (- 126)" by simp
  have "\<bar>fround v - v\<bar> \<le> 2 powi (- 150)" using s by (rule fround_subnormal)
  then have "\<bar>fround v\<bar> \<le> \<bar>v\<bar> + 2 powi (- 150)" by linarith
  also have "\<dots> \<le> 2 powi (- 126) + 2 powi (- 150)" using s by simp
  also have "\<dots> \<le> 2 powi (- 125)" by simp
  finally have "\<bar>fround v\<bar>\<^sup>2 \<le> (2 powi (- 125))\<^sup>2" by (intro power_mono) simp_all
  moreover have "((2::real) powi (- 125))\<^sup>2 = 2 powi (- 250)" by (simp add: power_divide)
  ultimately have "(fround v)\<^sup>2 \<le> 2 powi (- 250)" by (simp only: power2_abs)
  moreover have "0 \<le> (1 + 1 / 2 ^ 24)\<^sup>2 * v\<^sup>2" by simp
  ultimately show ?thesis by linarith
qed

lemma froundVec_radius:
  assumes "1 \<le> dist3 p"
  shows "(1 - 1 / 2 ^ 23) * dist3 p \<le> dist3 (froundVec p) \<and>
         dist3 (froundVec p) \<le> (1 + 1 / 2 ^ 23) * dist3 p"
proof -
  obtain x y z where p: "p = (x, y, z)" by (cases p) auto
  define S where "S = x\<^sup>2 + y\<^sup>2 + z\<^sup>2"
  define T where "T = (fround x)\<^sup>2 + (fround y)\<^sup>2 + (fround z)\<^sup>2"
  have dS: "dist3 p = sqrt S" by (simp add: p dist3_def S_def power2_eq_square)
  have dT: "dist3 (froundVec p) = sqrt T"
    by (simp add: p froundVec_def dist3_def T_def power2_eq_square)
  have S0: "0 \<le> S" by (simp add: S_def)
  have "1 \<le> sqrt S" using assms dS by simp
  then have S1: "1 \<le> S" by simp
  have dl: "c * S = c * x\<^sup>2 + c * y\<^sup>2 + c * z\<^sup>2" for c
    by (simp add: S_def distrib_left)
  have lo: "(1 - 1 / 2 ^ 24)\<^sup>2 * S - 3 * 2 powi (- 252) \<le> T"
    using fround_sq_lower [of x] fround_sq_lower [of y] fround_sq_lower [of z]
    unfolding dl T_def by linarith
  have hi: "T \<le> (1 + 1 / 2 ^ 24)\<^sup>2 * S + 3 * 2 powi (- 250)"
    using fround_sq_upper [of x] fround_sq_upper [of y] fround_sq_upper [of z]
    unfolding dl T_def by linarith
  have a: "(1 - 1 / 2 ^ 23)\<^sup>2 * S \<le> (1 - 1 / 2 ^ 24)\<^sup>2 * S - 3 * 2 powi (- 252)"
  proof -
    have "3 * 2 powi (- 252) \<le> ((1 - 1 / 2 ^ 24)\<^sup>2 - (1 - 1 / 2 ^ 23)\<^sup>2) * (1::real)"
      by (simp add: power2_eq_square)
    also have "\<dots> \<le> ((1 - 1 / 2 ^ 24)\<^sup>2 - (1 - 1 / 2 ^ 23)\<^sup>2) * S"
      using S1 by (intro mult_left_mono) (simp_all add: power2_eq_square)
    finally show ?thesis by (simp add: left_diff_distrib)
  qed
  have b: "(1 + 1 / 2 ^ 24)\<^sup>2 * S + 3 * 2 powi (- 250) \<le> (1 + 1 / 2 ^ 23)\<^sup>2 * S"
  proof -
    have "3 * 2 powi (- 250) \<le> ((1 + 1 / 2 ^ 23)\<^sup>2 - (1 + 1 / 2 ^ 24)\<^sup>2) * (1::real)"
      by (simp add: power2_eq_square)
    also have "\<dots> \<le> ((1 + 1 / 2 ^ 23)\<^sup>2 - (1 + 1 / 2 ^ 24)\<^sup>2) * S"
      using S1 by (intro mult_left_mono) (simp_all add: power2_eq_square)
    finally show ?thesis by (simp add: left_diff_distrib)
  qed
  have "sqrt ((1 - 1 / 2 ^ 23)\<^sup>2 * S) \<le> sqrt T" using a lo by (intro real_sqrt_le_mono) linarith
  then have 1: "(1 - 1 / 2 ^ 23) * sqrt S \<le> sqrt T" by (simp add: real_sqrt_mult)
  have "sqrt T \<le> sqrt ((1 + 1 / 2 ^ 23)\<^sup>2 * S)" using b hi by (intro real_sqrt_le_mono) linarith
  then have 2: "sqrt T \<le> (1 + 1 / 2 ^ 23) * sqrt S" by (simp add: real_sqrt_mult)
  show ?thesis using 1 2 by (simp add: dS dT)
qed

lemma float32Array_nth: "i < length ps \<Longrightarrow> float32Array ps ! i = froundVec (ps ! i)"
  by (simp add: float32Array_def)

lemma pushElectronsOutward_length:
  assumes "positions s = Some buf"
  shows "length (the (positions (pushElectronsOutward rnd a s))) = length buf"
  using assms pushBuffer_length [of rnd a "rngCursor s" "sampleCount s" buf]
  by (simp add: pushElectronsOutward_def split_def Let_def)

lemma stored_radius_lower:
  assumes "minAllowed \<le> dist3 p"
  shows "minAllowed * (1 - 1 / 2 ^ 23) \<le> dist3 (froundVec p)"
proof -
  have 1: "1 \<le> dist3 p" using assms by (simp add: minAllowed_val)
  have "minAllowed * (1 - 1 / 2 ^ 23) \<le> dist3 p * (1 - 1 / 2 ^ 23)"
    using assms by (intro mult_right_mono) simp_all
  then show ?thesis using froundVec_radius [OF 1] by (simp add: mult.commute)
qed

lemma onDoneArgs_factor: "1.15 \<le> fst (pushFactor (onDoneArgs l m) b r)"
  by (simp add: pushFactor_def onDoneArgs_def Let_def GLOBAL_RADIAL_PUSH_def EQ_RADIAL_PUSH_def
        NEAR_NUCLEAR_PUSH_MULT_def)

lemma pushPoint_onDone_radius:
  assumes "21 \<le> dist3 p"
  shows "24.15 \<le> dist3 (fst (pushPoint rnd (onDoneArgs l m) e c p))"
proof -
  obtain x y z where p: "p = (x, y, z)" by (cases p) auto
  define r where "r = dist3 (x, y, z)"
  define a where "a = onDoneArgs l m"
  obtain f t where ft: "pushFactor a (\<bar>z\<bar> \<le> e) r = (f, t)" by (cases "pushFactor a (\<bar>z\<bar> \<le> e) r") auto
  have f: "1.15 \<le> f" using onDoneArgs_factor [of l m "\<bar>z\<bar> \<le> e" r] ft by (simp add: a_def)
  have r21: "21 \<le> r" using assms by (simp add: p r_def)
  have rr: "sqrt (x * x + y * y + z * z) = r" by (simp add: r_def dist3_def)
  have far: "\<not> r \<le> EPS" "0 < r" using r21 by (simp_all add: EPS_def)
  have "21 * 1.15 \<le> r * f" using r21 f by (intro mult_mono) simp_all
  then have big: "24.15 \<le> r * f" by simp
  have scaled: "24.15 \<le> dist3 (x * (max T (r * f) / r), y * (max T (r * f) / r), z * (max T (r * f) / r))" for T
  proof -
    have "0 < max T (r * f)" using big by (simp add: max_def)
    with far(2) have "dist3 (x * (max T (r * f) / r), y * (max T (r * f) / r), z * (max T (r * f) / r)) = max T (r * f)"
      unfolding r_def by (rule dist3_rescale)
    then show ?thesis using big by simp
  qed
  show ?thesis
    using far scaled [of t] scaled [of minAllowed]
    by (auto simp add: p pushPoint_def rr ft a_def [symmetric] Let_def)
qed

lemma sqrt3_bounds: "14529495 / 8388608 \<le> sqrt 3" "sqrt 3 < 29058991 / 16777216"
proof -
  show "14529495 / 8388608 \<le> sqrt 3" by (rule real_le_rsqrt) (simp add: power2_eq_square)
  show "sqrt 3 < 29058991 / 16777216" by (rule real_less_lsqrt) (simp_all add: power2_eq_square)
qed

lemma fround_8sqrt3: "fround (8 * sqrt 3) = 14529495 / 1048576"
proof -
  define v where "v = 8 * sqrt 3"
  have b: "8 \<le> v" "v < 16" using sqrt3_bounds by (simp_all add: v_def)
  have v0: "0 < v" "v \<noteq> 0" "\<bar>v\<bar> = v" using b by simp_all
  have "\<lfloor>log 2 v\<rfloor> = 3"
    using floor_log_eq_powr_iff [of v 2 3] b v0 by simp
  then have e: "f32Exponent v = 3" by (simp add: f32Exponent_def v0)
  have q: "(2::real) powi (3 - 23) = 1 / 1048576" by simp
  have t: "v * 1048576 = 8388608 * sqrt 3" by (simp add: v_def)
  have fl: "\<lfloor>8388608 * sqrt 3\<rfloor> = 14529495"
    using sqrt3_bounds by (intro floor_unique) simp_all
  have "roundTiesToEven (8388608 * sqrt 3) = 14529495"
    using sqrt3_bounds by (simp add: roundTiesToEven_def fl Let_def)
  then show ?thesis unfolding v_def [symmetric] by (simp add: fround_def v0 e q t Let_def)
qed

lemma sqrt_300: "sqrt 300 = 10 * sqrt 3"
proof -
  have "sqrt 300 = sqrt (100 * 3)" by simp
  also have "\<dots> = sqrt 100 * sqrt 3" by (rule real_sqrt_mult)
  also have "sqrt 100 = 10" by (rule real_sqrt_unique) (simp_all add: power2_eq_square)
  finally show ?thesis .
qed

lemma innerPoint_pushed:
  "the (positions (pushElectronsOutward rnd (onDoneArgs 1 0) innerPointApp)) = [(8 * sqrt 3, 8 * sqrt 3, 8 * sqrt 3)]"
proof -
  have thr: "pushEqThreshold [(10, 10, 10)] = 2"
    by (simp add: pushEqThreshold_def posAxialOf_def negAxialOf_def percentile_single)
  have s3: "1 < sqrt 3" "sqrt 3 < 2" using sqrt3_bounds by simp_all
  have xy: "\<not> sqrt 200 \<le> EPS"
  proof -
    have "(1::real) \<le> sqrt 200" by simp
    then have "1 * 2 \<le> sqrt 200 * 1000000" by (intro mult_mono) simp_all
    then show ?thesis by (simp add: EPS_def)
  qed
  have c: "10 * (24 / (10 * sqrt 3)) = 8 * sqrt 3"
  proof -
    have "sqrt 3 * sqrt 3 = 3" by simp
    then show ?thesis using s3 by (simp add: field_simps)
  qed
  have m: "max 24 (23 * sqrt 3 / 2) = 24" using s3 by (simp add: max_def)
  have c': "24 / sqrt 3 = 8 * sqrt 3" using c by simp
  have "fst (pushPoint rnd (onDoneArgs 1 0) 2 0 (10, 10, 10)) = (8 * sqrt 3, 8 * sqrt 3, 8 * sqrt 3)"
    using xy by (simp add: pushPoint_def pushFactor_def onDoneArgs_def Let_def sqrt_300 minAllowed_val
          GLOBAL_RADIAL_PUSH_def EQ_RADIAL_PUSH_def m c')
  then show ?thesis
    by (simp add: innerPointApp_def idleApp_def pushElectronsOutward_def pushBuffer_def thr split_def Let_def)
qed

lemma innerPoint_stored_radius:
  "dist3 (froundVec (8 * sqrt 3, 8 * sqrt 3, 8 * sqrt 3)) < 24"
proof -
  have "sqrt (14529495 / 1048576 * (14529495 / 1048576) + 14529495 / 1048576 * (14529495 / 1048576)
           + 14529495 / 1048576 * (14529495 / 1048576)) < (24::real)"
    by (rule real_less_lsqrt) (simp_all add: power2_eq_square)
  then show ?thesis by (simp add: froundVec_def fround_8sqrt3 dist3_def)
qed

subsection \<open>The minimum distance\<close>

text \<open>
  C1, as the code has it. For every point among the first \<open>sampleCount\<close> of a buffer, the
  point that \<open>pushElectronsOutward\<close> computes is at distance at least \<open>NUCLEUS_RADIUS +
  ELECTRON_MIN_GAP = 24\<close> from the origin: for any factors, with or without the
  near-nucleus mode, for equatorial and other points, for points rescaled and points
  re-seeded, whatever the random source returns. The buffer is a \<open>Float32Array\<close>, so each
  coordinate is rounded to single precision when it is written, and the stored point is
  at distance at least \<open>24 (1 - 2^-23)\<close>. The stored point is at distance at least 24
  itself when the point was at distance 21 or more before the call and the arguments are
  those of the completion handler, whose factors are at least 1.15; the sampler and the
  fallback fill only write points computed at distance 24 or more.
\<close>

theorem pushElectronsOutward_min_radius:
  assumes "positions s = Some buf" "sampleCount s \<le> length buf" "i < sampleCount s"
  shows "NUCLEUS_RADIUS + ELECTRON_MIN_GAP
           \<le> dist3 (the (positions (pushElectronsOutward rnd a s)) ! i) \<and>
         (NUCLEUS_RADIUS + ELECTRON_MIN_GAP) * (1 - 1 / 2 ^ 23)
           \<le> dist3 (float32Array (the (positions (pushElectronsOutward rnd a s))) ! i) \<and>
         (21 \<le> dist3 (buf ! i) \<longrightarrow>
            NUCLEUS_RADIUS + ELECTRON_MIN_GAP
              \<le> dist3 (float32Array
                         (the (positions (pushElectronsOutward rnd (onDoneArgs l m) s))) ! i)) \<and>
         NUCLEUS_RADIUS + ELECTRON_MIN_GAP = 24"
proof -
  have pos: "0 < sampleCount s" using assms(3) by simp
  have il: "i < length buf" using assms(2,3) by simp
  have nth: "\<exists>c'. the (positions (pushElectronsOutward rnd b s)) ! i
            = fst (pushPoint rnd b (pushEqThreshold (take (sampleCount s) buf)) c' (buf ! i))" for b
    using pushBuffer_nth [OF assms(3) assms(2), of rnd b "rngCursor s"]
    by (simp add: pushElectronsOutward_positions [OF assms(1) pos])
  have st: "float32Array (the (positions (pushElectronsOutward rnd b s))) ! i
              = froundVec (the (positions (pushElectronsOutward rnd b s)) ! i)" for b
    using il by (intro float32Array_nth) (simp add: pushElectronsOutward_length [OF assms(1)])
  have 1: "minAllowed \<le> dist3 (the (positions (pushElectronsOutward rnd a s)) ! i)"
  proof -
    obtain c' where "the (positions (pushElectronsOutward rnd a s)) ! i
            = fst (pushPoint rnd a (pushEqThreshold (take (sampleCount s) buf)) c' (buf ! i))"
      using nth [of a] by blast
    then show ?thesis by (simp add: pushPoint_min)
  qed
  have 2: "minAllowed * (1 - 1 / 2 ^ 23)
             \<le> dist3 (float32Array (the (positions (pushElectronsOutward rnd a s))) ! i)"
    unfolding st using 1 by (rule stored_radius_lower)
  have 3: "minAllowed
              \<le> dist3 (float32Array
                         (the (positions (pushElectronsOutward rnd (onDoneArgs l m) s))) ! i)"
    if far: "21 \<le> dist3 (buf ! i)"
  proof -
    define q where "q = the (positions (pushElectronsOutward rnd (onDoneArgs l m) s)) ! i"
    obtain c' where "q = fst (pushPoint rnd (onDoneArgs l m)
                                 (pushEqThreshold (take (sampleCount s) buf)) c' (buf ! i))"
      using nth [of "onDoneArgs l m"] unfolding q_def by blast
    then have big: "24.15 \<le> dist3 q"
      using pushPoint_onDone_radius [OF far] by simp
    then have "1 \<le> dist3 q" by simp
    then have "(1 - 1 / 2 ^ 23) * dist3 q \<le> dist3 (froundVec q)"
      using froundVec_radius by blast
    moreover have "(1 - 1 / 2 ^ 23) * 24.15 \<le> (1 - 1 / 2 ^ 23) * dist3 q"
      using big by (intro mult_left_mono) simp_all
    moreover have "(24::real) \<le> (1 - 1 / 2 ^ 23) * 24.15" by simp
    ultimately have "24 \<le> dist3 (froundVec q)" by linarith
    then show ?thesis unfolding st q_def by (simp add: minAllowed_val)
  qed
  show ?thesis using 1 2 3 minAllowed_val by (simp add: minAllowed_def)
qed

theorem pushElectronsOutward_min_radius_witness:
  "(NUCLEUS_RADIUS + ELECTRON_MIN_GAP) * (1 - 1 / 2 ^ 23)
     \<le> dist3 (float32Array
                (the (positions (pushElectronsOutward (\<lambda>i. 0) (onDoneArgs 1 0) innerPointApp))) ! 0) \<and>
   NUCLEUS_RADIUS + ELECTRON_MIN_GAP
     \<le> dist3 (float32Array
                (the (positions (pushElectronsOutward (\<lambda>i. 0) (onDoneArgs 1 0) outerPointApp))) ! 0)"
proof -
  have "sqrt (30 * 30) = (30::real)" by (rule real_sqrt_unique) (simp_all add: power2_eq_square)
  then have far: "21 \<le> dist3 ([(30, 0, 0)] ! 0)" by (simp add: dist3_def)
  show ?thesis
    using pushElectronsOutward_min_radius [of innerPointApp "[(10, 10, 10)]" 0 "\<lambda>i. 0" "onDoneArgs 1 0" 1 0]
          pushElectronsOutward_min_radius [of outerPointApp "[(30, 0, 0)]" 0 "\<lambda>i. 0" "onDoneArgs 1 0" 1 0]
          far
    by (simp add: innerPointApp_def outerPointApp_def idleApp_def)
qed

text \<open>
  C1 as stated fails for the stored point in the branch that clamps to the minimum: the
  point \<open>(10, 10, 10)\<close> is moved to \<open>8 sqrt 3\<close> on each axis, at distance 24, and stored
  as \<open>14529495 / 2^20 = 13.856406211853027\<close> on each axis, at distance 23.99999957.
\<close>

theorem pushElectronsOutward_stored_below_minimum:
  "float32Array (the (positions (pushElectronsOutward (\<lambda>i. 0) (onDoneArgs 1 0) innerPointApp))) ! 0
     = (14529495 / 1048576, 14529495 / 1048576, 14529495 / 1048576) \<and>
   dist3 (float32Array
            (the (positions (pushElectronsOutward (\<lambda>i. 0) (onDoneArgs 1 0) innerPointApp))) ! 0)
     < NUCLEUS_RADIUS + ELECTRON_MIN_GAP"
proof -
  have "dist3 (froundVec (8 * sqrt 3, 8 * sqrt 3, 8 * sqrt 3)) < 24" by (rule innerPoint_stored_radius)
  then show ?thesis
    by (simp add: innerPoint_pushed float32Array_def froundVec_def fround_8sqrt3
          NUCLEUS_RADIUS_def ELECTRON_MIN_GAP_def)
qed

subsection \<open>The direction\<close>




section \<open>Verified properties: the ring of the \<open>l = 2, m = 0\<close> overlay\<close>

lemma ringRadii_order: "fst (ringRadii E) < snd (ringRadii E)"
  by (simp add: ringRadii_def Let_def split_def max_def DZ2_RING_SHRINK_FACTOR_def
        RING_DEFAULT_INNER_DIAM_def RING_DEFAULT_OUTER_DIAM_def)

lemma ringRadii_floor:
  "DZ2_RING_SHRINK_FACTOR * (NUCLEUS_RADIUS + ELECTRON_MIN_GAP) \<le> fst (ringRadii E)"
  by (simp add: ringRadii_def Let_def split_def max_def DZ2_RING_SHRINK_FACTOR_def
        RING_DEFAULT_INNER_DIAM_def RING_DEFAULT_OUTER_DIAM_def NUCLEUS_RADIUS_def ELECTRON_MIN_GAP_def)

lemma ringRadii_clear:
  assumes "length E < 8 \<or> (NUCLEUS_RADIUS + ELECTRON_MIN_GAP) / DZ2_RING_SHRINK_FACTOR
             < percentile E OVERLAY_RING_INNER_P"
  shows "NUCLEUS_RADIUS + ELECTRON_MIN_GAP < fst (ringRadii E)"
  using assms
  by (auto simp add: ringRadii_def Let_def split_def max_def DZ2_RING_SHRINK_FACTOR_def
        RING_DEFAULT_INNER_DIAM_def RING_DEFAULT_OUTER_DIAM_def NUCLEUS_RADIUS_def ELECTRON_MIN_GAP_def)

lemma ringOf_overlayDz2:
  "ringOf (overlayDz2 sampled) = Some r \<Longrightarrow>
     innerRadius r = fst (ringRadii (radialXYEquatorialOf sampled (dz2EqThreshold sampled))) \<and>
     outerRadius r = snd (ringRadii (radialXYEquatorialOf sampled (dz2EqThreshold sampled)))"
  by (auto simp add: overlayDz2_def Let_def split_def)

lemma ringOf_overlayDz2_Some: "ringOf (overlayDz2 sampled) \<noteq> None"
  by (simp add: overlayDz2_def Let_def split_def)

lemma sqrt_900: "sqrt 900 = 30"
  by (rule real_sqrt_unique) (simp_all add: power2_eq_square)

lemma percentile_sorted:
  "sorted arr \<Longrightarrow> arr \<noteq> [] \<Longrightarrow>
     percentile arr p = arr ! min (length arr - 1) (nat \<lfloor>p * real (length arr)\<rfloor>)"
  by (simp add: percentile_def Let_def sorted_sort_id)

lemma percentile_replicate: "0 < n \<Longrightarrow> percentile (replicate n v) p = v"
proof -
  assume n: "0 < n"
  have "sorted (replicate n v)" by (simp add: sorted_replicate)
  moreover have "replicate n v \<noteq> []" using n by simp
  ultimately have "percentile (replicate n v) p
      = replicate n v ! min (length (replicate n v) - 1) (nat \<lfloor>p * real (length (replicate n v))\<rfloor>)"
    by (rule percentile_sorted)
  also have "\<dots> = v" using n by (simp add: min_def)
  finally show ?thesis .
qed

lemma overlayDz2_ring_facts:
  "(case ringOf (overlayDz2 sampled) of
      None \<Rightarrow> False
    | Some r \<Rightarrow>
        innerRadius r < outerRadius r \<and>
        DZ2_RING_SHRINK_FACTOR * (NUCLEUS_RADIUS + ELECTRON_MIN_GAP) \<le> innerRadius r \<and>
        DZ2_RING_SHRINK_FACTOR * (NUCLEUS_RADIUS + ELECTRON_MIN_GAP) < outerRadius r \<and>
        (length (radialXYEquatorialOf sampled (dz2EqThreshold sampled)) < 8 \<or>
         (NUCLEUS_RADIUS + ELECTRON_MIN_GAP) / DZ2_RING_SHRINK_FACTOR
           < percentile (radialXYEquatorialOf sampled (dz2EqThreshold sampled)) OVERLAY_RING_INNER_P
         \<longrightarrow> NUCLEUS_RADIUS + ELECTRON_MIN_GAP < innerRadius r \<and>
             NUCLEUS_RADIUS + ELECTRON_MIN_GAP < outerRadius r))"
proof (cases "ringOf (overlayDz2 sampled)")
  case None
  then show ?thesis using ringOf_overlayDz2_Some by simp
next
  case (Some r)
  define E where "E = radialXYEquatorialOf sampled (dz2EqThreshold sampled)"
  have io: "innerRadius r = fst (ringRadii E)" "outerRadius r = snd (ringRadii E)"
    using ringOf_overlayDz2 [OF Some] by (simp_all add: E_def)
  have 1: "innerRadius r < outerRadius r" using ringRadii_order [of E] io by simp
  have 2: "DZ2_RING_SHRINK_FACTOR * (NUCLEUS_RADIUS + ELECTRON_MIN_GAP) \<le> innerRadius r"
    using ringRadii_floor [of E] io by simp
  have 3: "NUCLEUS_RADIUS + ELECTRON_MIN_GAP < innerRadius r"
    if "length E < 8 \<or> (NUCLEUS_RADIUS + ELECTRON_MIN_GAP) / DZ2_RING_SHRINK_FACTOR
             < percentile E OVERLAY_RING_INNER_P"
    using ringRadii_clear [OF that] io by simp
  show ?thesis using 1 2 3 by (auto simp add: Some E_def [symmetric])
qed

text \<open>
  C3, as the code has it. The sampled copy of a buffer is fitted, for \<open>l = 2, m = 0\<close>,
  by \<open>overlayDz2\<close>. The descriptor is of the axial-lobes-with-ring kind and its ring has
  \<open>innerRadius < outerRadius\<close>. The radii are clamped at \<open>NUCLEUS_RADIUS +
  ELECTRON_MIN_GAP\<close> and then multiplied by \<open>DZ2_RING_SHRINK_FACTOR = 0.92\<close>, so
  \<open>innerRadius\<close> is at least \<open>0.92 * 24 = 22.08\<close> and \<open>outerRadius\<close> is greater than
  that; both exceed \<open>NUCLEUS_RADIUS + ELECTRON_MIN_GAP\<close> when fewer than 8 sampled points
  are equatorial (the defaults) or when the 10th percentile of the equatorial radial
  distances exceeds \<open>24 / 0.92\<close>.
\<close>

theorem computeOverlay_dz2_ring:
  assumes "0 < n"
  shows "(case fst (computeOverlay dBranch rnd c True (Some buf) n (Some 2) (Some 0)) of
            None \<Rightarrow> False
          | Some cache \<Rightarrow>
              (case ringOf cache of
                 None \<Rightarrow> False
               | Some r \<Rightarrow>
                   innerRadius r < outerRadius r \<and>
                   DZ2_RING_SHRINK_FACTOR * (NUCLEUS_RADIUS + ELECTRON_MIN_GAP) \<le> innerRadius r \<and>
                   DZ2_RING_SHRINK_FACTOR * (NUCLEUS_RADIUS + ELECTRON_MIN_GAP) < outerRadius r \<and>
                   (length (radialXYEquatorialOf (overlaySampled buf n)
                              (dz2EqThreshold (overlaySampled buf n))) < 8 \<or>
                    (NUCLEUS_RADIUS + ELECTRON_MIN_GAP) / DZ2_RING_SHRINK_FACTOR
                      < percentile (radialXYEquatorialOf (overlaySampled buf n)
                                      (dz2EqThreshold (overlaySampled buf n))) OVERLAY_RING_INNER_P
                    \<longrightarrow> NUCLEUS_RADIUS + ELECTRON_MIN_GAP < innerRadius r \<and>
                        NUCLEUS_RADIUS + ELECTRON_MIN_GAP < outerRadius r)))"
proof -
  have "fst (computeOverlay dBranch rnd c True (Some buf) n (Some 2) (Some 0))
          = Some (overlayDz2 (overlaySampled buf n))"
    using assms by (simp add: computeOverlay_def overlayFit_def)
  then show ?thesis using overlayDz2_ring_facts [of "overlaySampled buf n"] by simp
qed

theorem computeOverlay_dz2_ring_witness:
  "(case fst (computeOverlay noDBranch (\<lambda>i. 0) 0 True (Some (replicate 8 (30, 0, 0))) 8
               (Some 2) (Some 0)) of
      None \<Rightarrow> False
    | Some cache \<Rightarrow>
        (case ringOf cache of None \<Rightarrow> False
         | Some r \<Rightarrow> NUCLEUS_RADIUS + ELECTRON_MIN_GAP < innerRadius r \<and>
                      innerRadius r < outerRadius r)) \<and>
   (case fst (computeOverlay noDBranch (\<lambda>i. 0) 0 True (Some [(30, 0, 0)]) 1
               (Some 2) (Some 0)) of
      None \<Rightarrow> False
    | Some cache \<Rightarrow>
        (case ringOf cache of None \<Rightarrow> False
         | Some r \<Rightarrow> NUCLEUS_RADIUS + ELECTRON_MIN_GAP < innerRadius r \<and>
                      innerRadius r < outerRadius r))"
proof -
  have s8: "overlaySampled (replicate 8 (30, 0, 0)) 8 = replicate 8 (30, 0, 0)"
    using map_nth [of "replicate 8 (30 :: real, 0 :: real, 0 :: real)"]
    by (simp add: overlaySampled_def)
  have s1: "overlaySampled [(30, 0, 0)] 1 = [(30, 0, 0)]"
    by (simp add: overlaySampled_def)
  have thr: "dz2EqThreshold (replicate 8 (30, 0, 0)) = 1"
    by (simp add: dz2EqThreshold_def t95posRawOf_def t95negRawOf_def
          posAxialOf_def negAxialOf_def percentile_replicate)
  have E8: "radialXYEquatorialOf (replicate 8 (30, 0, 0)) 1 = replicate 8 30"
    by (simp add: radialXYEquatorialOf_def sqrt_900)
  have E1: "length (radialXYEquatorialOf [(30, 0, 0)] (dz2EqThreshold [(30, 0, 0)])) < 8"
    by (simp add: radialXYEquatorialOf_def)
  have h8: "(NUCLEUS_RADIUS + ELECTRON_MIN_GAP) / DZ2_RING_SHRINK_FACTOR
              < percentile (radialXYEquatorialOf (replicate 8 (30, 0, 0))
                  (dz2EqThreshold (replicate 8 (30, 0, 0)))) OVERLAY_RING_INNER_P"
    by (simp add: thr E8 percentile_replicate NUCLEUS_RADIUS_def ELECTRON_MIN_GAP_def DZ2_RING_SHRINK_FACTOR_def)
  have n8: "(0::nat) < 8" and n1: "(0::nat) < 1" by simp_all
  show ?thesis
    using computeOverlay_dz2_ring [where n = 8 and dBranch = noDBranch and rnd = "\<lambda>i. 0"
            and c = 0 and buf = "replicate 8 (30, 0, 0)"]
          computeOverlay_dz2_ring [where n = 1 and dBranch = noDBranch and rnd = "\<lambda>i. 0"
            and c = 0 and buf = "[(30, 0, 0)]"] h8 E1 n8 n1
    unfolding s8 s1
    by (auto split: option.splits)
qed

text \<open>
  C3 as stated fails on the buffer \<open>axialBuffer\<close>: its eight equatorial points lie on the
  axis, the clamp gives 24 and 24.001, and the shrink factor brings both radii below
  \<open>NUCLEUS_RADIUS + ELECTRON_MIN_GAP = 24\<close>.
\<close>

theorem computeOverlay_dz2_ring_below_clearance:
  "(case fst (computeOverlay noDBranch (\<lambda>i. 0) 0 True (Some axialBuffer) 9 (Some 2) (Some 0)) of
      None \<Rightarrow> False
    | Some cache \<Rightarrow>
        (case ringOf cache of None \<Rightarrow> False
         | Some r \<Rightarrow> innerRadius r = 22.08 \<and> outerRadius r = 22.08092 \<and>
             \<not> NUCLEUS_RADIUS + ELECTRON_MIN_GAP < innerRadius r \<and>
             \<not> NUCLEUS_RADIUS + ELECTRON_MIN_GAP < outerRadius r))"
proof -
  have len: "length axialBuffer = 9" by (simp add: axialBuffer_def)
  have "map (\<lambda>j. axialBuffer ! (j * 1)) [0..<length axialBuffer] = axialBuffer"
    by (simp add: map_nth)
  then have s: "overlaySampled axialBuffer 9 = axialBuffer"
    by (simp add: overlaySampled_def len)
  have pos: "posAxialOf axialBuffer = replicate 8 130 @ [1000]"
    by (simp add: posAxialOf_def axialBuffer_def)
  have neg: "negAxialOf axialBuffer = []"
    by (simp add: negAxialOf_def axialBuffer_def)
  have "sorted (replicate 8 (130::real) @ [1000])" by (simp add: sorted_append sorted_replicate)
  then have "percentile (replicate 8 130 @ [1000]) OVERLAY_PERCENTILE = 1000"
    by (simp add: percentile_sorted OVERLAY_PERCENTILE_def nth_append)
  then have thr: "dz2EqThreshold axialBuffer = 200"
    by (simp add: dz2EqThreshold_def t95posRawOf_def t95negRawOf_def pos neg)
  have E: "radialXYEquatorialOf axialBuffer 200 = replicate 8 0"
    by (simp add: radialXYEquatorialOf_def axialBuffer_def)
  show ?thesis
    by (simp add: computeOverlay_def overlayFit_def s overlayDz2_def thr E ringRadii_def
          percentile_replicate Let_def NUCLEUS_RADIUS_def ELECTRON_MIN_GAP_def
          DZ2_RING_SHRINK_FACTOR_def)
qed

section \<open>Verified properties: sessions\<close>

subsection \<open>What the sampler leaves alone\<close>

lemma chunkLoop_control: "control (exitState (chunkLoop rnd P stopIndex a s)) = control s"
proof (induction rnd P stopIndex a s rule: chunkLoop.induct)
  case (1 rnd P stopIndex a s)
  show ?case
    apply (subst chunkLoop.simps)
    using 1 by (auto simp add: control_def split: option.splits prod.splits)
qed

lemma chunkLoop_capacity: "capacity (exitState (chunkLoop rnd P stopIndex a s)) = capacity s"
proof (induction rnd P stopIndex a s rule: chunkLoop.induct)
  case (1 rnd P stopIndex a s)
  show ?case
    apply (subst chunkLoop.simps)
    using 1 by (auto simp add: capacity_def split: option.splits prod.splits)
qed

lemma fallbackLoop_length:
  "length (fst (fallbackLoop rnd P k i c ps zs)) = length ps"
  by (induction k arbitrary: i c ps zs) (simp_all add: split_def)

lemma fallbackFill_control: "fallbackFill rnd P s = Some s' \<Longrightarrow> control s' = control s"
  by (auto simp add: fallbackFill_def control_def split: option.splits prod.splits)

lemma fallbackFill_capacity: "fallbackFill rnd P s = Some s' \<Longrightarrow> capacity s' = capacity s"
  using fallbackLoop_length
  by (auto simp add: fallbackFill_def capacity_def split: option.splits prod.splits) (metis fst_conv)

lemma fallbackThrown_control: "control (fallbackThrown rnd P s) = control s"
  by (auto simp add: fallbackThrown_def control_def split: option.splits prod.splits)

lemma fallbackThrown_capacity: "capacity (fallbackThrown rnd P s) = capacity s"
  by (auto simp add: fallbackThrown_def capacity_def split: option.splits prod.splits)

lemma pushElectronsOutward_control: "control (pushElectronsOutward rnd a s) = control s"
  by (auto simp add: pushElectronsOutward_def control_def Let_def split: option.splits prod.splits)

lemma pushElectronsOutward_capacity: "capacity (pushElectronsOutward rnd a s) = capacity s"
  using pushBuffer_length
  by (auto simp add: pushElectronsOutward_def capacity_def Let_def split: option.splits prod.splits)
     (metis fst_conv)

lemma control_fields:
  "control s' = control s \<Longrightarrow>
     currentSamplingId s' = currentSamplingId s \<and> sampleTarget s' = sampleTarget s \<and>
     timers s' = timers s \<and> onDoneCalls s' = onDoneCalls s \<and> sampling s' = sampling s \<and>
     ui s' = ui s \<and> lastUIHash s' = lastUIHash s \<and> orbitalMode s' = orbitalMode s"
  by (simp add: control_def)

lemma taskEffect_control:
  "control s' = control s \<Longrightarrow> capacity s' = capacity s \<Longrightarrow> taskEffect sid s s'"
  by (simp add: taskEffect_def control_def)

lemma taskEffect_refl: "taskEffect sid s s"
  by (simp add: taskEffect_def)

lemma onDone_effect:
  assumes "control s1 = control s" "capacity s1 = capacity s"
  shows "taskEffect sid s (onDone rnd l m sid s1)"
proof -
  define s2 where "s2 = s1\<lparr>onDoneCalls := onDoneCalls s1 @ [sid]\<rparr>"
  have c2: "currentSamplingId s2 = currentSamplingId s" "sampleTarget s2 = sampleTarget s"
       "timers s2 = timers s" "onDoneCalls s2 = onDoneCalls s @ [sid]" "capacity s2 = capacity s"
    using assms by (simp_all add: s2_def control_def capacity_def)
  have e2: "taskEffect sid s s2" using c2 by (simp add: taskEffect_def)
  define s3 where "s3 = pushElectronsOutward rnd (onDoneArgs l m) (s2\<lparr>sampling := False\<rparr>)"
  have "control s3 = control (s2\<lparr>sampling := False\<rparr>)" "capacity s3 = capacity (s2\<lparr>sampling := False\<rparr>)"
    by (simp_all add: s3_def pushElectronsOutward_control pushElectronsOutward_capacity)
  then have e3: "taskEffect sid s s3" using c2 by (simp add: taskEffect_def control_def capacity_def)
  have "onDone rnd l m sid s1 = (if sid \<noteq> currentSamplingId s2 then s2 else s3)"
    by (simp add: onDone_def Let_def s2_def s3_def)
  then show ?thesis using e2 e3 by (cases "sid \<noteq> currentSamplingId s2") simp_all
qed

lemma chunk_stale: "samplingId P \<noteq> currentSamplingId s \<Longrightarrow> chunk rnd P s = s"
  by (simp add: chunk_def)

lemma chunk_effect: "taskEffect (samplingId P) s (chunk rnd P s)"
proof (cases "samplingId P \<noteq> currentSamplingId s")
  case True
  then show ?thesis by (simp add: chunk_def taskEffect_refl)
next
  case False
  define stop where "stop = min (numSamples P) (sampleCount s + CHUNK_SAMPLES)"
  define ex where "ex = chunkLoop rnd P stop 0 s"
  have ctl: "control (exitState ex) = control s" and cap: "capacity (exitState ex) = capacity s"
    by (simp_all add: ex_def chunkLoop_control chunkLoop_capacity)
  show ?thesis
  proof (cases ex)
    case (Returned s1)
    then show ?thesis using False ctl cap
      by (simp add: chunk_def Let_def stop_def [symmetric] ex_def [symmetric] taskEffect_control)
  next
    case (Threw s1)
    then show ?thesis using False ctl cap
      by (simp add: chunk_def Let_def stop_def [symmetric] ex_def [symmetric] taskEffect_control)
  next
    case (Exited a s1)
    have c1: "control s1 = control s" "capacity s1 = capacity s" using ctl cap Exited by simp_all
    have done1: "taskEffect (samplingId P) s (onDone rnd (qL P) (qM P) (samplingId P) s1)"
      using c1 by (rule onDone_effect)
    have thrown: "taskEffect (samplingId P) s (fallbackThrown rnd P s1)"
      using c1 by (simp add: taskEffect_control fallbackThrown_control fallbackThrown_capacity)
    have filled: "taskEffect (samplingId P) s (onDone rnd (qL P) (qM P) (samplingId P) s2)"
      if "fallbackFill rnd P s1 = Some s2" for s2
      using c1 fallbackFill_control [OF that] fallbackFill_capacity [OF that]
      by (intro onDone_effect) simp_all
    have resched: "taskEffect (samplingId P) s (s1\<lparr>timers := timers s1 @ [(d, Chunk P)]\<rparr>)" for d
      using c1 by (simp add: taskEffect_def control_def capacity_def)
    have same: "taskEffect (samplingId P) s s1" using c1 by (rule taskEffect_control)
    show ?thesis using False Exited done1 thrown filled resched same
      by (auto simp add: chunk_def Let_def stop_def [symmetric] ex_def [symmetric] split: option.splits)
  qed
qed

lemma sampleOrbitalChunked_effect:
  "taskEffect sid s (sampleOrbitalChunked rnd n l m ns eSize sid s)"
proof (cases "ns \<le> 0")
  case True
  then show ?thesis using onDone_effect [of s s sid rnd l m]
    by (simp add: sampleOrbitalChunked_def)
next
  case False
  obtain mx c' where e: "estimateMaxAngular rnd l m 500 (rngCursor s) = (mx, c')"
    by (cases "estimateMaxAngular rnd l m 500 (rngCursor s)") auto
  define P where "P = \<lparr>qN = n, qL = l, qM = m, numSamples = nat ns, electronSize = eSize,
              samplingId = sid, maxAngular = mx * 1.2\<rparr>"
  have "taskEffect (samplingId P) (s\<lparr>rngCursor := c'\<rparr>) (chunk rnd P (s\<lparr>rngCursor := c'\<rparr>))"
    by (rule chunk_effect)
  then have "taskEffect sid s (chunk rnd P (s\<lparr>rngCursor := c'\<rparr>))"
    by (simp add: taskEffect_def capacity_def P_def)
  then show ?thesis using False by (simp add: sampleOrbitalChunked_def e P_def)
qed

lemma runTask_effect: "taskEffect (taskSession t) s (runTask rnd t s)"
  by (cases t) (simp_all add: sampleOrbitalChunked_effect chunk_effect)

lemma runTask_stale:
  assumes "taskSession t \<noteq> currentSamplingId s" "startPositive t"
  shows "runTask rnd t s = s\<lparr>rngCursor := rngCursor (runTask rnd t s)\<rparr>"
proof (cases t)
  case (StartSampling n l m ns eSize sid)
  obtain mx c' where e: "estimateMaxAngular rnd l m 500 (rngCursor s) = (mx, c')"
    by (cases "estimateMaxAngular rnd l m 500 (rngCursor s)") auto
  show ?thesis using assms StartSampling
    by (simp add: sampleOrbitalChunked_def e chunk_def)
next
  case (Chunk P)
  then show ?thesis using assms by (simp add: chunk_def)
qed

subsection \<open>Invariants of the event loop\<close>

lemma createOrbitalFromUI_counter:
  "currentSamplingId s \<le> currentSamplingId (createOrbitalFromUI s)"
  by (simp add: createOrbitalFromUI_def Let_def split: option.splits)

lemma createOrbitalFromUI_calls:
  "onDoneCalls (createOrbitalFromUI s) = onDoneCalls s"
  by (simp add: createOrbitalFromUI_def Let_def split: option.splits)

lemma readNumElectrons_range: "0 \<le> readNumElectrons u \<and> readNumElectrons u \<le> MAX_ELECTRONS"
  by (simp add: readNumElectrons_def Let_def MAX_ELECTRONS_def split: option.splits)

lemma pendingOK_mono:
  "pendingOK s \<Longrightarrow> timers s' = timers s \<Longrightarrow> currentSamplingId s \<le> currentSamplingId s'
     \<Longrightarrow> pendingOK s'"
  by (auto simp add: pendingOK_def list_all_iff)

lemma createOrbitalFromUI_pendingOK:
  assumes "pendingOK s"
  shows "pendingOK (createOrbitalFromUI s)"
proof (cases "ui s")
  case None
  then show ?thesis using assms by (simp add: createOrbitalFromUI_def)
next
  case (Some u)
  have pos: "readNumElectrons u \<noteq> 0 \<Longrightarrow> 0 < readNumElectrons u"
    using readNumElectrons_range [of u] by simp
  have old: "list_all (\<lambda>(delay, t). taskSession t \<le> Suc (currentSamplingId s) \<and> startPositive t) (timers s)"
    using assms by (auto simp add: pendingOK_def list_all_iff)
  show ?thesis using assms Some pos old
    by (auto simp add: createOrbitalFromUI_def Let_def pendingOK_def)
qed

lemma createOrbitalFromUI_within:
  assumes "bufferWithin (nat MAX_ELECTRONS) s"
  shows "bufferWithin (nat MAX_ELECTRONS) (createOrbitalFromUI s)"
proof (cases "ui s")
  case None
  then show ?thesis using assms by (simp add: createOrbitalFromUI_def)
next
  case (Some u)
  have "nat (readNumElectrons u) \<le> nat MAX_ELECTRONS"
    using readNumElectrons_range [of u] by (simp add: nat_mono)
  then show ?thesis using assms Some
    by (auto simp add: createOrbitalFromUI_def Let_def bufferWithin_def)
qed

lemma bufferWithin_cong:
  "bufferWithin N s \<Longrightarrow> capacity s' = capacity s \<Longrightarrow> sampleTarget s' = sampleTarget s
     \<Longrightarrow> bufferWithin N s'"
  by (cases "positions s"; cases "positions s'") (auto simp add: bufferWithin_def capacity_def)

lemma withoutTimer_fields:
  "currentSamplingId (withoutTimer i s) = currentSamplingId s"
  "onDoneCalls (withoutTimer i s) = onDoneCalls s"
  "capacity (withoutTimer i s) = capacity s"
  "sampleTarget (withoutTimer i s) = sampleTarget s"
  "timers (withoutTimer i s) = take i (timers s) @ drop (Suc i) (timers s)"
  by (simp_all add: withoutTimer_def capacity_def)

lemma pendingOK_nth:
  "pendingOK s \<Longrightarrow> i < length (timers s) \<Longrightarrow>
     taskSession (snd (timers s ! i)) \<le> currentSamplingId s \<and> startPositive (snd (timers s ! i))"
  by (auto simp add: pendingOK_def list_all_length split_def)

lemma pendingOK_withoutTimer: "pendingOK s \<Longrightarrow> pendingOK (withoutTimer i s)"
  by (auto simp add: pendingOK_def withoutTimer_def list_all_iff dest: in_set_takeD in_set_dropD)

lemma fire_pendingOK:
  assumes "pendingOK s" "i < length (timers s)"
  shows "pendingOK (runTask rnd (snd (timers s ! i)) (withoutTimer i s))"
proof -
  define t where "t = snd (timers s ! i)"
  define s0 where "s0 = withoutTimer i s"
  have t: "taskSession t \<le> currentSamplingId s" using pendingOK_nth [OF assms] by (simp add: t_def)
  have p0: "pendingOK s0" using assms(1) by (simp add: s0_def pendingOK_withoutTimer)
  have c0: "currentSamplingId s0 = currentSamplingId s" by (simp add: s0_def withoutTimer_fields)
  have "taskEffect (taskSession t) s0 (runTask rnd t s0)" by (rule runTask_effect)
  then obtain ts where ts: "timers (runTask rnd t s0) = timers s0 @ ts"
      "list_all (\<lambda>(delay, t'). taskSession t' = taskSession t \<and> startPositive t') ts"
      "currentSamplingId (runTask rnd t s0) = currentSamplingId s0"
    by (auto simp add: taskEffect_def)
  have "list_all (\<lambda>(delay, t'). taskSession t' \<le> currentSamplingId s0 \<and> startPositive t') ts"
    using ts(2) t c0 by (auto simp add: list_all_iff)
  then have "pendingOK (runTask rnd t s0)" using p0 ts by (simp add: pendingOK_def)
  then show ?thesis by (simp add: t_def s0_def)
qed

lemma step_pendingOK: "pendingOK s \<Longrightarrow> pendingOK (step rnd e s)"
proof (cases e)
  case (Request u mode)
  assume "pendingOK s"
  then have "pendingOK (s\<lparr>ui := Some u, orbitalMode := mode\<rparr>)" by (simp add: pendingOK_def)
  then show ?thesis using Request by (simp add: createOrbitalFromUI_pendingOK)
next
  case (Fire i)
  assume "pendingOK s"
  then show ?thesis using Fire fire_pendingOK by simp
qed

lemma step_counter: "currentSamplingId s \<le> currentSamplingId (step rnd e s)"
proof (cases e)
  case (Request u mode)
  then show ?thesis
    using createOrbitalFromUI_counter [of "s\<lparr>ui := Some u, orbitalMode := mode\<rparr>"] by simp
next
  case (Fire i)
  have "taskEffect (taskSession (snd (timers s ! i))) (withoutTimer i s)
          (runTask rnd (snd (timers s ! i)) (withoutTimer i s))" by (rule runTask_effect)
  then show ?thesis using Fire by (simp add: taskEffect_def withoutTimer_fields)
qed

lemma step_within:
  "bufferWithin (nat MAX_ELECTRONS) s \<Longrightarrow> bufferWithin (nat MAX_ELECTRONS) (step rnd e s)"
proof (cases e)
  case (Request u mode)
  assume "bufferWithin (nat MAX_ELECTRONS) s"
  then have "bufferWithin (nat MAX_ELECTRONS) (s\<lparr>ui := Some u, orbitalMode := mode\<rparr>)"
    by (simp add: bufferWithin_def)
  then show ?thesis using Request by (simp add: createOrbitalFromUI_within)
next
  case (Fire i)
  assume w: "bufferWithin (nat MAX_ELECTRONS) s"
  have "taskEffect (taskSession (snd (timers s ! i))) (withoutTimer i s)
          (runTask rnd (snd (timers s ! i)) (withoutTimer i s))" by (rule runTask_effect)
  then have "capacity (runTask rnd (snd (timers s ! i)) (withoutTimer i s)) = capacity s"
       "sampleTarget (runTask rnd (snd (timers s ! i)) (withoutTimer i s)) = sampleTarget s"
    by (simp_all add: taskEffect_def withoutTimer_fields)
  then show ?thesis using Fire w bufferWithin_cong by auto
qed

lemma step_calls:
  assumes "pendingOK s" "sid < currentSamplingId s"
  shows "filter (\<lambda>x. x = sid) (onDoneCalls (step rnd e s)) = filter (\<lambda>x. x = sid) (onDoneCalls s)"
proof (cases e)
  case (Request u mode)
  then show ?thesis by (simp add: createOrbitalFromUI_calls)
next
  case (Fire i)
  show ?thesis
  proof (cases "i < length (timers s)")
    case False
    then show ?thesis using Fire by simp
  next
    case True
    define t where "t = snd (timers s ! i)"
    define s0 where "s0 = withoutTimer i s"
    have st: "step rnd e s = runTask rnd t s0" using Fire True by (simp add: t_def s0_def)
    have t: "startPositive t" using pendingOK_nth [OF assms(1) True] by (simp add: t_def)
    have f0: "currentSamplingId s0 = currentSamplingId s" "onDoneCalls s0 = onDoneCalls s"
      by (simp_all add: s0_def withoutTimer_fields)
    show ?thesis
    proof (cases "taskSession t = sid")
      case True
      then have "taskSession t \<noteq> currentSamplingId s0" using assms(2) f0 by simp
      from runTask_stale [OF this t, of rnd]
      have "onDoneCalls (runTask rnd t s0) = onDoneCalls (s0\<lparr>rngCursor := rngCursor (runTask rnd t s0)\<rparr>)"
        by (rule arg_cong)
      then show ?thesis using st f0 by simp
    next
      case False
      have "taskEffect (taskSession t) s0 (runTask rnd t s0)" by (rule runTask_effect)
      then obtain ds where "onDoneCalls (runTask rnd t s0) = onDoneCalls s0 @ ds" "set ds \<subseteq> {taskSession t}"
        by (auto simp add: taskEffect_def)
      moreover have "filter (\<lambda>x. x = sid) ds = []" using calculation(2) False by (auto simp add: filter_empty_conv)
      ultimately show ?thesis using st f0 by simp
    qed
  qed
qed

lemma run_invariants:
  assumes "pendingOK s" "sid < currentSamplingId s"
  shows "pendingOK (run rnd evs s) \<and> sid < currentSamplingId (run rnd evs s) \<and>
         filter (\<lambda>x. x = sid) (onDoneCalls (run rnd evs s)) = filter (\<lambda>x. x = sid) (onDoneCalls s)"
  using assms
proof (induction evs arbitrary: s)
  case Nil
  then show ?case by simp
next
  case (Cons e evs)
  have 1: "pendingOK (step rnd e s)" using Cons.prems(1) by (rule step_pendingOK)
  have 2: "sid < currentSamplingId (step rnd e s)"
    using Cons.prems(2) step_counter [of s rnd e] by simp
  have 3: "filter (\<lambda>x. x = sid) (onDoneCalls (step rnd e s)) = filter (\<lambda>x. x = sid) (onDoneCalls s)"
    using Cons.prems by (rule step_calls)
  show ?case using Cons.IH [OF 1 2] 3 by simp
qed

lemma run_within:
  "bufferWithin (nat MAX_ELECTRONS) s \<Longrightarrow> bufferWithin (nat MAX_ELECTRONS) (run rnd evs s)"
  by (induction evs arbitrary: s) (simp_all add: step_within)

lemma oneRequest_eq:
  "oneRequest = idleApp\<lparr>ui := Some (req 1 0 0 2), lastUIHash := Some (1, 0, 0, 1, 2, ''basic''),
       currentSamplingId := 1, positions := Some (replicate 2 (0, 0, 0)),
       sizes := Some (replicate 2 0), sampleTarget := 2, sampling := True,
       timers := [(10, StartSampling 1 0 0 2 1 1)]\<rparr>"
  by (simp add: oneRequest_def createOrbitalFromUI_def idleApp_def req_def readN_def readL_def
        readM_def repairedUI_def readElectronSize_def readNumElectrons_def MAX_ELECTRONS_def Let_def)

lemma twoRequests_eq:
  "twoRequests = idleApp\<lparr>ui := Some (req 1 0 0 3), lastUIHash := Some (1, 0, 0, 1, 3, ''basic''),
       currentSamplingId := 2, positions := Some (replicate 3 (0, 0, 0)),
       sizes := Some (replicate 3 0), sampleTarget := 3, sampling := True,
       timers := [(10, StartSampling 1 0 0 2 1 1), (10, StartSampling 1 0 0 3 1 2)]\<rparr>"
  by (simp add: twoRequests_def oneRequest_eq createOrbitalFromUI_def idleApp_def req_def
        readN_def readL_def readM_def repairedUI_def readElectronSize_def readNumElectrons_def
        MAX_ELECTRONS_def Let_def)

subsection \<open>Requests\<close>

text \<open>
  C6, as the code has it. \<open>createOrbitalFromUI\<close> first repairs \<open>n < 1\<close> to 1 and
  \<open>l < 0\<close> to 0. A request whose repaired quantum numbers have \<open>l \<ge> n\<close> or
  \<open>|m| > l\<close> is rejected before a session starts: only the widgets are rewritten, the
  session counter is not incremented, no buffer is allocated or written and no timer is
  scheduled.
\<close>

theorem createOrbitalFromUI_rejects_invalid:
  assumes "ui s = Some u" "readL u \<ge> readN u \<or> \<bar>readM u\<bar> > readL u"
  shows "createOrbitalFromUI s = s\<lparr>ui := Some (repairedUI u)\<rparr> \<and>
         currentSamplingId (createOrbitalFromUI s) = currentSamplingId s \<and>
         positions (createOrbitalFromUI s) = positions s \<and>
         sizes (createOrbitalFromUI s) = sizes s \<and>
         sampleCount (createOrbitalFromUI s) = sampleCount s \<and>
         timers (createOrbitalFromUI s) = timers s"
  using assms by (auto simp add: createOrbitalFromUI_def Let_def)

theorem createOrbitalFromUI_rejects_invalid_witness:
  "createOrbitalFromUI (idleApp\<lparr>ui := Some (req 2 2 0 100)\<rparr>) = idleApp\<lparr>ui := Some (req 2 2 0 100)\<rparr> \<and>
   createOrbitalFromUI (idleApp\<lparr>ui := Some (req 2 1 (- 2) 100)\<rparr>) = idleApp\<lparr>ui := Some (req 2 1 (- 2) 100)\<rparr>"
  using createOrbitalFromUI_rejects_invalid [of "idleApp\<lparr>ui := Some (req 2 2 0 100)\<rparr>" "req 2 2 0 100"]
        createOrbitalFromUI_rejects_invalid [of "idleApp\<lparr>ui := Some (req 2 1 (- 2) 100)\<rparr>" "req 2 1 (- 2) 100"]
  by (simp add: idleApp_def req_def readN_def readL_def readM_def repairedUI_def
        readElectronSize_def readNumElectrons_def MAX_ELECTRONS_def)

text \<open>
  C6 as stated fails for \<open>n < 1\<close> and for \<open>l < 0\<close>: the request \<open>n = 0, l = 0, m = 0\<close>
  for 100 samples starts session 1 for \<open>n = 1\<close> and allocates its buffer, and so does the
  request \<open>n = 2, l = -1, m = 0\<close>, for \<open>l = 0\<close>.
\<close>

theorem createOrbitalFromUI_repairs_n_and_l:
  "currentSamplingId (createOrbitalFromUI (idleApp\<lparr>ui := Some (req 0 0 0 100)\<rparr>)) = 1 \<and>
   currentSamplingId (idleApp\<lparr>ui := Some (req 0 0 0 100)\<rparr>) = 0 \<and>
   positions (createOrbitalFromUI (idleApp\<lparr>ui := Some (req 0 0 0 100)\<rparr>))
     = Some (replicate 100 (0, 0, 0)) \<and>
   timers (createOrbitalFromUI (idleApp\<lparr>ui := Some (req 0 0 0 100)\<rparr>))
     = [(10, StartSampling 1 0 0 100 1 1)] \<and>
   currentSamplingId (createOrbitalFromUI (idleApp\<lparr>ui := Some (req 2 (- 1) 0 100)\<rparr>)) = 1"
  by (simp add: createOrbitalFromUI_def idleApp_def req_def readN_def readL_def readM_def repairedUI_def
        readElectronSize_def readNumElectrons_def MAX_ELECTRONS_def Let_def)

text \<open>
  C10. The count of a request is clamped to \<open>MAX_ELECTRONS = 30000\<close>. Whenever a
  request starts a session, the target and the capacity of the new buffer are the
  clamped count, which is 30000 for a requested count above 30000; and along every run
  of the event loop from the initial state (or from any state within the bound) the
  target and the capacity of the sample buffer stay at most 30000.
\<close>

theorem sample_target_clamped:
  "(bufferWithin (nat MAX_ELECTRONS) s \<longrightarrow> bufferWithin (nat MAX_ELECTRONS) (run rnd evs s)) \<and>
   bufferWithin (nat MAX_ELECTRONS) idleApp \<and>
   nat MAX_ELECTRONS = 30000 \<and>
   (ui s = Some u \<and> currentSamplingId (createOrbitalFromUI s) \<noteq> currentSamplingId s \<longrightarrow>
      sampleTarget (createOrbitalFromUI s) = nat (readNumElectrons u) \<and>
      positions (createOrbitalFromUI s) = Some (replicate (nat (readNumElectrons u)) (0, 0, 0)) \<and>
      readNumElectrons u \<le> MAX_ELECTRONS \<and>
      (\<forall>v. numElectronsInput u = Some v \<and> v > MAX_ELECTRONS \<longrightarrow> readNumElectrons u = MAX_ELECTRONS))"
proof -
  have 1: "bufferWithin (nat MAX_ELECTRONS) s \<longrightarrow> bufferWithin (nat MAX_ELECTRONS) (run rnd evs s)"
    using run_within by blast
  have 2: "bufferWithin (nat MAX_ELECTRONS) idleApp"
    by (simp add: bufferWithin_def idleApp_def)
  have 3: "nat MAX_ELECTRONS = 30000" by (simp add: MAX_ELECTRONS_def)
  have 4: "sampleTarget (createOrbitalFromUI s) = nat (readNumElectrons u) \<and>
      positions (createOrbitalFromUI s) = Some (replicate (nat (readNumElectrons u)) (0, 0, 0))"
    if "ui s = Some u" "currentSamplingId (createOrbitalFromUI s) \<noteq> currentSamplingId s"
    using that by (auto simp add: createOrbitalFromUI_def Let_def split: if_splits)
  have 5: "readNumElectrons u = MAX_ELECTRONS" if "numElectronsInput u = Some v" "v > MAX_ELECTRONS" for v
    using that by (simp add: readNumElectrons_def MAX_ELECTRONS_def)
  show ?thesis using 1 2 3 4 5 readNumElectrons_range [of u] by blast
qed

theorem sample_target_clamped_witness:
  "bufferWithin 30000 (run (\<lambda>i. 0) [Request (req 1 0 0 50000) ''basic''] idleApp) \<and>
   sampleTarget (createOrbitalFromUI (idleApp\<lparr>ui := Some (req 1 0 0 50000)\<rparr>)) = 30000 \<and>
   positions (createOrbitalFromUI (idleApp\<lparr>ui := Some (req 1 0 0 50000)\<rparr>))
      = Some (replicate 30000 (0, 0, 0))"
proof -
  have c: "currentSamplingId (createOrbitalFromUI (idleApp\<lparr>ui := Some (req 1 0 0 50000)\<rparr>))
             \<noteq> currentSamplingId (idleApp\<lparr>ui := Some (req 1 0 0 50000)\<rparr>)"
    by (simp add: createOrbitalFromUI_def idleApp_def req_def readN_def readL_def
        readM_def repairedUI_def readElectronSize_def readNumElectrons_def MAX_ELECTRONS_def Let_def)
  have r: "numElectronsInput (req 1 0 0 50000) = Some 50000" "(50000::int) > MAX_ELECTRONS"
    by (simp_all add: req_def MAX_ELECTRONS_def)
  show ?thesis
    using sample_target_clamped [of idleApp "\<lambda>i. 0" "[Request (req 1 0 0 50000) ''basic'']" "req 1 0 0 50000"]
          sample_target_clamped [of "idleApp\<lparr>ui := Some (req 1 0 0 50000)\<rparr>" "\<lambda>i. 0" "[]" "req 1 0 0 50000"] c r
    by (simp add: MAX_ELECTRONS_def)
qed

subsection \<open>Cancellation\<close>

text \<open>
  The condition \<open>pendingOK\<close> on the pending timers holds before any request and is kept
  by every event, so it holds in every state the sketch reaches.
\<close>

lemma idleApp_pendingOK: "pendingOK idleApp"
  by (simp add: pendingOK_def idleApp_def)

lemma run_pendingOK: "pendingOK s \<Longrightarrow> pendingOK (run rnd evs s)"
  by (induction evs arbitrary: s) (simp_all add: step_pendingOK)

lemma stale_session_inert:
  assumes "pendingOK s" "sid < currentSamplingId s"
  shows "filter (\<lambda>x. x = sid) (onDoneCalls (run rnd evs s)) = filter (\<lambda>x. x = sid) (onDoneCalls s) \<and>
         (\<forall>i < length (timers (run rnd evs s)).
            taskSession (snd (timers (run rnd evs s) ! i)) = sid \<longrightarrow>
            step rnd (Fire i) (run rnd evs s)
              = (withoutTimer i (run rnd evs s))
                  \<lparr>rngCursor := rngCursor (step rnd (Fire i) (run rnd evs s))\<rparr>)"
proof -
  define s' where "s' = run rnd evs s"
  have inv: "pendingOK s'" "sid < currentSamplingId s'"
       "filter (\<lambda>x. x = sid) (onDoneCalls s') = filter (\<lambda>x. x = sid) (onDoneCalls s)"
    using run_invariants [OF assms, of rnd evs] by (simp_all add: s'_def)
  have "step rnd (Fire i) s' = (withoutTimer i s')\<lparr>rngCursor := rngCursor (step rnd (Fire i) s')\<rparr>"
    if i: "i < length (timers s')" and t: "taskSession (snd (timers s' ! i)) = sid" for i
  proof -
    have "taskSession (snd (timers s' ! i)) \<noteq> currentSamplingId (withoutTimer i s')"
      using inv(2) t by (simp add: withoutTimer_fields)
    moreover have "startPositive (snd (timers s' ! i))" using pendingOK_nth [OF inv(1) i] by simp
    ultimately show ?thesis using runTask_stale [of "snd (timers s' ! i)" "withoutTimer i s'" rnd] i
      by simp
  qed
  then show ?thesis using inv(3) by (simp add: s'_def)
qed

text \<open>
  C4. Let a timer of a session S1 be pending when a request starts a session S2, which
  increments the session counter. Then S1 is superseded: its id is below the counter.
  Along every run of the event loop after that, the completion callback of S1 is never
  invoked, and every timer of S1 that fires is a no-op: it is removed, and nothing else
  changes but the cursor of the random source. In particular it writes neither the
  sample buffer nor the sample count of S2, schedules no further chunk and invokes no
  callback. The comparison of the captured id with the counter on entry of the chunk
  decides this, and the counter never decreases. The state \<open>s0\<close> in which S2 is requested
  is any state whose pending timers satisfy \<open>pendingOK\<close>, as every reachable state does.
\<close>

theorem superseded_session_is_inert:
  assumes "pendingOK s0"
      and "i < length (timers s0)"
      and "currentSamplingId (step rnd (Request u mode) s0) \<noteq> currentSamplingId s0"
  shows "taskSession (snd (timers s0 ! i)) < currentSamplingId (step rnd (Request u mode) s0) \<and>
         filter (\<lambda>x. x = taskSession (snd (timers s0 ! i)))
           (onDoneCalls (run rnd evs (step rnd (Request u mode) s0)))
           = filter (\<lambda>x. x = taskSession (snd (timers s0 ! i))) (onDoneCalls s0) \<and>
         (\<forall>k < length (timers (run rnd evs (step rnd (Request u mode) s0))).
            taskSession (snd (timers (run rnd evs (step rnd (Request u mode) s0)) ! k))
              = taskSession (snd (timers s0 ! i)) \<longrightarrow>
            step rnd (Fire k) (run rnd evs (step rnd (Request u mode) s0))
              = (withoutTimer k (run rnd evs (step rnd (Request u mode) s0)))
                  \<lparr>rngCursor :=
                     rngCursor (step rnd (Fire k) (run rnd evs (step rnd (Request u mode) s0)))\<rparr>)"
proof -
  define sid where "sid = taskSession (snd (timers s0 ! i))"
  define s where "s = step rnd (Request u mode) s0"
  have le: "sid \<le> currentSamplingId s0"
    using pendingOK_nth [OF assms(1,2)] by (simp add: sid_def)
  have "currentSamplingId s0 \<le> currentSamplingId s" unfolding s_def by (rule step_counter)
  then have lt: "sid < currentSamplingId s" using le assms(3) by (simp add: s_def)
  have ok: "pendingOK s" unfolding s_def using assms(1) by (rule step_pendingOK)
  have calls: "onDoneCalls s = onDoneCalls s0"
    by (simp add: s_def createOrbitalFromUI_calls)
  show ?thesis
    using stale_session_inert [OF ok lt, of rnd evs] lt calls
    unfolding sid_def s_def by simp
qed

theorem superseded_session_is_inert_witness:
  "taskSession (snd (timers oneRequest ! 0)) = 1 \<and>
   currentSamplingId twoRequests = 2 \<and>
   onDoneCalls (step (\<lambda>i. 0) (Fire 0) twoRequests) = [] \<and>
   positions (step (\<lambda>i. 0) (Fire 0) twoRequests) = Some (replicate 3 (0, 0, 0)) \<and>
   sampleCount (step (\<lambda>i. 0) (Fire 0) twoRequests) = 0 \<and>
   timers (step (\<lambda>i. 0) (Fire 0) twoRequests) = [(10, StartSampling 1 0 0 3 1 2)]"
proof -
  have two: "step (\<lambda>i. 0) (Request (req 1 0 0 3) ''basic'') oneRequest = twoRequests"
    by (simp only: twoRequests_def)
  have h: "pendingOK oneRequest" "0 < length (timers oneRequest)"
      "currentSamplingId (step (\<lambda>i. 0) (Request (req 1 0 0 3) ''basic'') oneRequest)
         \<noteq> currentSamplingId oneRequest"
    unfolding two by (simp_all add: twoRequests_eq oneRequest_eq pendingOK_def idleApp_def)
  have t: "taskSession (snd (timers oneRequest ! 0)) = 1"
      "0 < length (timers (run (\<lambda>i. 0) [] twoRequests))"
      "taskSession (snd (timers (run (\<lambda>i. 0) [] twoRequests) ! 0)) = 1"
    by (simp_all add: twoRequests_eq oneRequest_eq idleApp_def)
  from superseded_session_is_inert [OF h, of "[]"] t
  have eq: "step (\<lambda>i. 0) (Fire 0) twoRequests
              = (withoutTimer 0 twoRequests)\<lparr>rngCursor := rngCursor (step (\<lambda>i. 0) (Fire 0) twoRequests)\<rparr>"
    unfolding two by simp
  have "onDoneCalls (step (\<lambda>i. 0) (Fire 0) twoRequests) = onDoneCalls (withoutTimer 0 twoRequests)"
       "positions (step (\<lambda>i. 0) (Fire 0) twoRequests) = positions (withoutTimer 0 twoRequests)"
       "sampleCount (step (\<lambda>i. 0) (Fire 0) twoRequests) = sampleCount (withoutTimer 0 twoRequests)"
       "timers (step (\<lambda>i. 0) (Fire 0) twoRequests) = timers (withoutTimer 0 twoRequests)"
    by (subst eq, simp)+
  then show ?thesis using t
    by (simp add: twoRequests_eq withoutTimer_def idleApp_def)
qed

section \<open>Verified properties: the lobes of the \<open>l = 1\<close> overlay\<close>

text \<open>
  For every sampled copy and every random source the descriptor of the \<open>l = 1\<close> branch
  has at least two lobes, and all of them carry the same axial and the same radial
  extent, those of the first lobe with the largest \<open>|axisUnit.x|\<close>.
\<close>

lemma withXFallback_length: "2 \<le> length (withXFallback sampled ls)"
  by (simp add: withXFallback_def split_def)

lemma lobesFinalOf_shared:
  assumes "2 \<le> length ls"
  shows "2 \<le> length (lobesFinalOf sampled ls) \<and>
         (\<forall>L \<in> set (lobesFinalOf sampled ls).
            t95 L = fst (canonicalExtents sampled ls) \<and> r95 L = snd (canonicalExtents sampled ls))"
  using assms by (auto simp add: lobesFinalOf_def split_def Let_def)

lemma overlayP_lobes_share_extents:
  "2 \<le> length (lobesOf (fst (overlayP rnd c sampled))) \<and>
   (\<exists>T R. \<forall>L \<in> set (lobesOf (fst (overlayP rnd c sampled))). t95 L = T \<and> r95 L = R)"
proof (cases "length sampled < 6")
  case True
  then show ?thesis by (auto simp add: overlayP_def)
next
  case False
  obtain cl c' where k: "kmeans rnd sampled (length sampled) 2 30 c = (cl, c')"
    by (cases "kmeans rnd sampled (length sampled) 2 30 c") auto
  define ls where "ls = withXFallback sampled (lobesOfClusters sampled cl)"
  have "2 \<le> length ls" by (simp add: ls_def withXFallback_length)
  from lobesFinalOf_shared [OF this, of sampled]
  show ?thesis using False k by (auto simp add: overlayP_def Let_def ls_def [symmetric])
qed

lemma seven_lo: "i < 6 \<Longrightarrow> sevenPoints ! i = (25, 0, 0)"
  by (simp add: sevenPoints_def nth_append)

lemma seven_hi: "sevenPoints ! 6 = (- 25, 0, 0)" "length sevenPoints = 7"
  by (simp_all add: sevenPoints_def nth_append)

lemma upt7: "[0..<7] = [0, 1, 2, 3, 4, 5, 6]"
  by (simp add: upt_rec)

lemma upt2: "[0..<2] = [0, 1]"
  by (simp add: upt_rec)

lemma init7: "initCentroids kmeansRnd sevenPoints 7 2 [] 0 = ([(25, 0, 0), (- 25, 0, 0)], 2)"
proof -
  have 1: "pickCentroidIdx kmeansRnd 7 [] 0 0 = (0, 1)"
    by (simp add: kmeansRnd_def)
  have 2: "pickCentroidIdx kmeansRnd 7 [0] 0 (Suc 0) = (6, 2)"
    by (simp add: kmeansRnd_def)
  have "initCentroids kmeansRnd sevenPoints 7 (Suc (Suc 0)) [] 0 = ([(25, 0, 0), (- 25, 0, 0)], 2)"
    by (simp add: 1 2 seven_lo seven_hi del: pickCentroidIdx.simps)
  then show ?thesis by (simp add: numeral_2_eq_2)
qed

lemma asg7:
  "map (\<lambda>i. nearestLoop (sevenPoints ! i) [(25, 0, 0), (- 25, 0, 0)] 0 0 None) [0..<7]
     = [0, 0, 0, 0, 0, 0, Suc 0]"
  by (simp add: upt7 seven_lo seven_hi sqDist_def)

lemma members7:
  "filter (\<lambda>i. [0, 0, 0, 0, 0, 0, Suc 0] ! i = 0) [0..<7] = [0, 1, 2, 3, 4, 5]"
  "filter (\<lambda>i. [0, 0, 0, 0, 0, 0, Suc 0] ! i = Suc 0) [0..<7] = [6]"
  by (simp_all add: upt7)

lemma upd7:
  "updateCentroids rnd sevenPoints 7 [0, 0, 0, 0, 0, 0, Suc 0] 0 2 c = ([(25, 0, 0), (- 25, 0, 0)], c)"
proof -
  have "updateCentroids rnd sevenPoints 7 [0, 0, 0, 0, 0, 0, Suc 0] 0 (Suc (Suc 0)) c
          = ([(25, 0, 0), (- 25, 0, 0)], c)"
    by (simp add: members7 seven_lo seven_hi vecSum_def)
  then show ?thesis by (simp add: numeral_2_eq_2)
qed

lemma iter7:
  "kmeansIter kmeansRnd sevenPoints 7 2 30 [(25, 0, 0), (- 25, 0, 0)] (replicate 7 0) 2
     = ([0, 0, 0, 0, 0, 0, Suc 0], 2)"
proof -
  have r: "replicate 7 (0::nat) = [0, 0, 0, 0, 0, 0, 0]" by (simp add: numeral_eq_Suc)
  have h: "kmeansIter kmeansRnd sevenPoints 7 2 (Suc (Suc it)) [(25, 0, 0), (- 25, 0, 0)] [0, 0, 0, 0, 0, 0, 0] 2
     = ([0, 0, 0, 0, 0, 0, Suc 0], 2)" for it
    by (simp add: asg7 upd7 Let_def del: updateCentroids.simps nearestLoop.simps)
  have e: "(30::nat) = Suc (Suc 28)" by simp
  show ?thesis unfolding r by (subst e) (rule h)
qed

lemma kmeans7: "kmeans kmeansRnd sevenPoints 7 2 30 0 = ([[0, 1, 2, 3, 4, 5], [6]], 2)"
  by (simp add: kmeans_def init7 iter7 upt2 members7)

lemma sqrt_625: "sqrt 625 = 25"
  by (rule real_sqrt_unique) (simp_all add: power2_eq_square)

lemma lobe7:
  "clusterLobe sevenPoints [0, Suc 0, 2, 3, 4, 5] = \<lparr>axisUnit = (1, 0, 0), t95 = 25, r95 = 0.01\<rparr>"
proof -
  have six: "[x, x, x, x, x, x] = replicate 6 x" for x :: real by (simp add: numeral_eq_Suc)
  show ?thesis
    by (simp add: clusterLobe_def seven_lo vecSum_def sqrt_625 six percentile_replicate)
qed

lemma xext7: "xAxisExtents sevenPoints = (28.75, 0.01)"
proof -
  have a: "map (\<lambda>(x, y, z). \<bar>x\<bar>) sevenPoints = replicate 7 25"
    by (simp add: sevenPoints_def numeral_eq_Suc)
  have b: "map (\<lambda>(x, y, z). sqrt (y * y + z * z)) sevenPoints = replicate 7 0"
    by (simp add: sevenPoints_def numeral_eq_Suc)
  show ?thesis
    by (simp add: xAxisExtents_def a b percentile_replicate P_PX_AXIAL_BOOST_def P_PX_RADIAL_BOOST_def)
qed

text \<open>
  C5, at an input where the clustering gives one valid lobe. The seven samples
  \<open>sevenPoints\<close> fall into clusters of 6 and 1 points. The code then appends the two
  x-aligned lobes to the one lobe it has, where the branch for \<open>l = 2, m \<noteq> 0\<close> empties
  its list first: the descriptor has three lobes, two of them on the same axis, and not
  the two opposite x-aligned lobes alone.
\<close>

theorem computeOverlay_p_one_cluster_gives_three_lobes:
  "computeOverlay dBranch kmeansRnd 0 True (Some sevenPoints) 7 (Some 1) m =
     (Some (OverlayP [\<lparr>axisUnit = (1, 0, 0), t95 = 25, r95 = 0.01\<rparr>,
                      \<lparr>axisUnit = (1, 0, 0), t95 = 25, r95 = 0.01\<rparr>,
                      \<lparr>axisUnit = (- 1, 0, 0), t95 = 25, r95 = 0.01\<rparr>]), 2)"
proof -
  have "map (\<lambda>j. sevenPoints ! (j * 1)) [0..<length sevenPoints] = sevenPoints"
    by (simp add: map_nth)
  then have s: "overlaySampled sevenPoints 7 = sevenPoints"
    by (simp add: overlaySampled_def seven_hi)
  have "overlayP kmeansRnd 0 sevenPoints =
     (OverlayP [\<lparr>axisUnit = (1, 0, 0), t95 = 25, r95 = 0.01\<rparr>,
                \<lparr>axisUnit = (1, 0, 0), t95 = 25, r95 = 0.01\<rparr>,
                \<lparr>axisUnit = (- 1, 0, 0), t95 = 25, r95 = 0.01\<rparr>], 2)"
    by (simp add: overlayP_def seven_hi kmeans7 lobesOfClusters_def lobe7 withXFallback_def xext7
        lobesFinalOf_def canonicalExtents_def)
  then show ?thesis by (simp add: computeOverlay_def overlayFit_def s)
qed

section \<open>Verified properties: the fallback fill\<close>

subsection \<open>Attempts under the two concrete random sources\<close>










lemma s_consts:
  "shapeK 0 = 3" "thetaScale 1 = 20" "radialScale 0 = 1.6" "minAllowed = 24"
  by (simp_all add: shapeK_def thetaScale_def a0_def radialScale_def
        radialLScale_def ELECTRON_DISTANCE_MULTIPLIER_def minAllowed_def NUCLEUS_RADIUS_def
        ELECTRON_MIN_GAP_def)




lemma sampleAttempt_radius:
  assumes "sampleAttempt rnd P c = (Some p, c')"
  shows "minAllowed \<le> dist3 p"
proof -
  obtain sumExp c1 where e: "sumExp_loop rnd (shapeK (qL P)) c 0 = (sumExp, c1)"
    by (cases "sumExp_loop rnd (shapeK (qL P)) c 0") auto
  define r where "r = thetaScale (qN P) * sumExp * radialScale (qL P)"
  obtain acc th ph c2 where t: "angularTries rnd (qL P) (qM P) (maxAngular P) 20 c1 0 0 = (acc, th, ph, c2)"
    by (cases "angularTries rnd (qL P) (qM P) (maxAngular P) 20 c1 0 0") auto
  have r: "minAllowed \<le> r" and p: "p = (r * sin th * cos ph, r * sin th * sin ph, r * cos th)"
    using assms
    by (auto simp add: sampleAttempt_def e t Let_def r_def [symmetric] split: if_splits
             simp del: angularTries.simps)
  have "0 \<le> r" using r by (simp add: minAllowed_val)
  then show ?thesis using r by (simp add: p dist3_polar)
qed


subsection \<open>The points of the fallback fill\<close>

lemma radialScale_range: "0 \<le> radialScale l"
  by (simp add: radialScale_def radialLScale_def ELECTRON_DISTANCE_MULTIPLIER_def max_def)

lemma fallbackRMax_ge: "1 \<le> n \<Longrightarrow> minAllowed \<le> fallbackRMax n"
proof -
  assume "1 \<le> n"
  then have "1 \<le> real_of_int n" by simp
  then have "1 * 1 \<le> real_of_int n * real_of_int n" by (intro mult_mono) simp_all
  then have "72 \<le> real_of_int n * real_of_int n * a0 * 1.8" by (simp add: a0_def)
  then have "24 \<le> max 1 (real_of_int n * real_of_int n * a0 * 1.8)" by linarith
  then show ?thesis unfolding fallbackRMax_def s_consts(4) .
qed

lemma cuberoot_unit: "0 \<le> u \<Longrightarrow> u \<le> 1 \<Longrightarrow> 0 \<le> u powr (1 / 3) \<and> u powr (1 / 3) \<le> (1::real)"
  by (simp add: powr_le1)

lemma fallbackRadius_range:
  assumes "1 \<le> qN P" "\<forall>j. 0 \<le> rnd j \<and> rnd j < 1"
  shows "minAllowed \<le> fst (fallbackRadius rnd P c) \<and>
         fst (fallbackRadius rnd P c) \<le> fallbackCutoff (qN P) (qL P)"
proof -
  define R where "R = fallbackRMax (qN P)"
  define rs where "rs = radialScale (qL P)"
  define u where "u = rnd c powr (1 / 3)"
  define v where "v = rnd (c + 1) powr (1 / 3)"
  have R: "minAllowed \<le> R" unfolding R_def using assms(1) by (rule fallbackRMax_ge)
  have m: "0 < minAllowed" by (simp add: s_consts(4))
  have rs: "0 \<le> rs" by (simp add: rs_def radialScale_range)
  have u: "0 \<le> u" "u \<le> 1" using assms(2) cuberoot_unit [of "rnd c"] by (simp_all add: u_def less_imp_le)
  have v: "0 \<le> v" "v \<le> 1" using assms(2) cuberoot_unit [of "rnd (c + 1)"] by (simp_all add: v_def less_imp_le)
  have Rpos: "0 \<le> R" using R m by simp
  have a1: "R * u * rs \<le> R * max 1 rs"
  proof -
    have "R * u \<le> R * 1" using u Rpos by (intro mult_left_mono) simp_all
    then have "R * u * rs \<le> R * 1 * rs" using rs by (intro mult_right_mono) simp_all
    also have "\<dots> \<le> R * max 1 rs" using Rpos by (simp add: mult_left_mono)
    finally show ?thesis .
  qed
  have b0: "0 \<le> (R - minAllowed) * v" using R v by simp
  have b1: "(R - minAllowed) * v \<le> (R - minAllowed) * 1" using R v by (intro mult_left_mono) simp_all
  have b2: "R \<le> R * max 1 rs" using Rpos by (simp add: mult_le_cancel_left1)
  have out: "fst (fallbackRadius rnd P c)
               = (if R * u * rs < minAllowed then minAllowed + (R - minAllowed) * v else R * u * rs)"
    by (simp add: fallbackRadius_def Let_def R_def rs_def u_def v_def)
  show ?thesis unfolding out fallbackCutoff_def R_def [symmetric] rs_def [symmetric]
    using a1 b0 b1 b2 by auto
qed

lemma fallbackPoint_range:
  assumes "1 \<le> qN P" "\<forall>j. 0 \<le> rnd j \<and> rnd j < 1"
  shows "minAllowed \<le> dist3 (fst (fallbackPoint rnd P c)) \<and>
         dist3 (fst (fallbackPoint rnd P c)) \<le> fallbackCutoff (qN P) (qL P)"
proof -
  obtain rr c1 where r: "fallbackRadius rnd P c = (rr, c1)" by (cases "fallbackRadius rnd P c") auto
  have rng: "minAllowed \<le> rr \<and> rr \<le> fallbackCutoff (qN P) (qL P)"
    using fallbackRadius_range [OF assms, of c] r by simp
  then have "0 \<le> rr" by (simp add: s_consts(4))
  then have "dist3 (fst (fallbackPoint rnd P c)) = rr"
    by (simp add: fallbackPoint_def r Let_def dist3_polar)
  then show ?thesis using rng by simp
qed

lemma fallbackLoop_below:
  "i < i0 \<Longrightarrow> fst (fallbackLoop rnd P k i0 c ps zs) ! i = ps ! i"
  by (induction k arbitrary: i0 c ps zs) (simp_all add: split_def)

lemma fallbackLoop_nth:
  "i0 \<le> i \<Longrightarrow> i < i0 + k \<Longrightarrow> i < length ps \<Longrightarrow>
     \<exists>c'. fst (fallbackLoop rnd P k i0 c ps zs) ! i = fst (fallbackPoint rnd P c')"
proof (induction k arbitrary: i0 c ps zs)
  case 0
  then show ?case by simp
next
  case (Suc k)
  obtain p c1 where p: "fallbackPoint rnd P c = (p, c1)" by (cases "fallbackPoint rnd P c") auto
  show ?case
  proof (cases "i = i0")
    case True
    have "fst (fallbackLoop rnd P k (i0 + 1) c1 (ps[i0 := p]) (zs[i0 := electronSize P])) ! i
            = (ps[i0 := p]) ! i"
      using True by (intro fallbackLoop_below) simp
    then show ?thesis using True Suc.prems p by (auto simp add: intro: exI [of _ c] simp del: fallbackLoop.simps(1))
  next
    case False
    then have "i0 + 1 \<le> i" "i < i0 + 1 + k" "i < length (ps[i0 := p])" using Suc.prems by simp_all
    from Suc.IH [OF this, of c1 "zs[i0 := electronSize P]"]
    show ?thesis by (simp add: p)
  qed
qed

lemma fallbackFill_points:
  assumes "fallbackFill rnd P s1 = Some s2" "sampleCount s1 \<le> i" "i < numSamples P"
      "i < length (the (positions s2))" "1 \<le> qN P" "\<forall>j. 0 \<le> rnd j \<and> rnd j < 1"
  shows "minAllowed \<le> dist3 (the (positions s2) ! i) \<and>
         dist3 (the (positions s2) ! i) \<le> fallbackCutoff (qN P) (qL P)"
proof -
  obtain ps zs where b: "positions s1 = Some ps" "sizes s1 = Some zs"
    using assms(1) by (auto simp add: fallbackFill_def split: option.splits)
  define k where "k = numSamples P - sampleCount s1"
  have p2: "the (positions s2) = fst (fallbackLoop rnd P k (sampleCount s1) (rngCursor s1) ps zs)"
    using assms(1) b by (auto simp add: fallbackFill_def k_def split: prod.splits)
  have len: "i < length ps" using assms(4) by (simp add: p2 fallbackLoop_length)
  have "i < sampleCount s1 + k" using assms(2,3) by (simp add: k_def)
  from fallbackLoop_nth [OF assms(2) this len, of rnd P "rngCursor s1" zs]
  obtain c' where "the (positions s2) ! i = fst (fallbackPoint rnd P c')" unfolding p2 by blast
  then show ?thesis using fallbackPoint_range [OF assms(5,6), of c'] by simp
qed










subsection \<open>A chunk that exhausts its attempts\<close>

lemma chunkTailOld_never_fills:
  "chunkTailOld fill onDoneCb P a s = chunkTailOld (\<lambda>s. Inl s) onDoneCb P a s"
  by (simp add: chunkTailOld_def)













end
